theory Spec2Isabelle
  imports Complex_Main "HOL-Library.AList"
begin

section \<open>The product API of server.js\<close>

text \<open>
  A shallow embedding of the Express application in \<^verbatim>\<open>src/server.js\<close>: the in-memory
  product list, the handler of body-decoding errors, the route table in registration
  order, the route-scoped middleware (\<^verbatim>\<open>authMiddleware\<close>, \<^verbatim>\<open>validateProduct\<close>), the
  handlers and the final \<^verbatim>\<open>errorHandler\<close>.

  Conventions of the model.
  \<^item> \<open>app\<close> takes a request after \<^verbatim>\<open>loggerMiddleware\<close> and \<^verbatim>\<open>bodyParser.json()\<close>:
    it is given \<^verbatim>\<open>req.body\<close> as the parser left it and the error the parser raised, if
    any. \<open>route\<close> is the route table behind it.
  \<^item> A string is the list of the bytes of its text; the code compares strings for equality
    and containment only. \<^verbatim>\<open>String.prototype.trim\<close> and
    \<^verbatim>\<open>String.prototype.toLowerCase\<close> are built-ins of the language and not code of the
    repository: they are parameters of the model (record \<open>builtins\<close>), so that every
    statement holds for the functions of the language on all text.
  \<^item> A number is a binary64 value (\<open>jsnum\<close>): a finite rational, an infinity or
    \<^verbatim>\<open>NaN\<close>. Comparison is exact; addition and division round their exact result, and
    the rounding function is the third parameter in \<open>builtins\<close>. What \<^verbatim>\<open>parseInt\<close>
    returns is an \<open>int\<close>, with \<^verbatim>\<open>NaN\<close> as \<open>None\<close>; it is written out for ASCII.
  \<^item> \<^verbatim>\<open>req.query\<close> and \<^verbatim>\<open>req.body\<close> are maps from property names to values;
    a missing property (\<^verbatim>\<open>undefined\<close>) is \<open>None\<close>.
  \<^item> The module variable \<^verbatim>\<open>products\<close> is passed in and returned.
  \<^item> \<^verbatim>\<open>uuidv4()\<close> is a library call; the identifier it returns is a parameter.
\<close>

subsection \<open>Strings\<close>

text \<open>
  Lower-casing and trimming of ASCII text. Express matches the fixed segments of a route
  with \<open>ascii_toLowerCase\<close>; both serve as the built-ins in the examples.
\<close>

definition lower_char :: "char \<Rightarrow> char" where
  "lower_char c =
     (let n = (of_char c :: nat) in if 65 \<le> n \<and> n \<le> 90 then char_of (n + 32) else c)"

definition ascii_toLowerCase :: "string \<Rightarrow> string" where
  "ascii_toLowerCase s = map lower_char s"

definition is_space :: "char \<Rightarrow> bool" where
  "is_space c = (let n = (of_char c :: nat) in (9 \<le> n \<and> n \<le> 13) \<or> n = 32)"

definition ascii_trim :: "string \<Rightarrow> string" where
  "ascii_trim s = rev (dropWhile is_space (rev (dropWhile is_space s)))"

text \<open>\<^verbatim>\<open>s.includes(t)\<close>: \<open>t\<close> occurs in \<open>s\<close> as a contiguous substring.\<close>

fun str_includes :: "string \<Rightarrow> string \<Rightarrow> bool" where
  "str_includes [] t = (t = [])"
| "str_includes (c # s) t = (take (length t) (c # s) = t \<or> str_includes s t)"

text \<open>What "\<open>t\<close> is a substring of \<open>s\<close>" means, to compare \<open>str_includes\<close> with.\<close>

definition is_substring :: "string \<Rightarrow> string \<Rightarrow> bool" where
  "is_substring t s = (\<exists>pre post. s = pre @ t @ post)"

subsection \<open>Numbers\<close>

text \<open>
  A binary64 value. The two zeros are one value: the code never tells them apart.
\<close>

datatype jsnum = NaN | NegInf | Fin rat | PosInf

text \<open>\<^verbatim>\<open>x < y\<close> and \<^verbatim>\<open>x <= y\<close>: false as soon as one side is \<^verbatim>\<open>NaN\<close>.\<close>

fun num_less :: "jsnum \<Rightarrow> jsnum \<Rightarrow> bool" where
  "num_less NaN y = False"
| "num_less x NaN = False"
| "num_less PosInf y = False"
| "num_less x NegInf = False"
| "num_less NegInf y = True"
| "num_less x PosInf = True"
| "num_less (Fin a) (Fin b) = (a < b)"

definition num_le :: "jsnum \<Rightarrow> jsnum \<Rightarrow> bool" where
  "num_le x y = (x \<noteq> NaN \<and> y \<noteq> NaN \<and> (x = y \<or> num_less x y))"

text \<open>
  \<^verbatim>\<open>x + y\<close>, and \<^verbatim>\<open>x / n\<close> for a count \<open>n\<close>. \<open>rd\<close> rounds the exact result of an
  operation on finite values to binary64 (to an infinity on overflow).
\<close>

fun num_add :: "(rat \<Rightarrow> jsnum) \<Rightarrow> jsnum \<Rightarrow> jsnum \<Rightarrow> jsnum" where
  "num_add rd NaN y = NaN"
| "num_add rd x NaN = NaN"
| "num_add rd PosInf NegInf = NaN"
| "num_add rd NegInf PosInf = NaN"
| "num_add rd PosInf y = PosInf"
| "num_add rd x PosInf = PosInf"
| "num_add rd NegInf y = NegInf"
| "num_add rd x NegInf = NegInf"
| "num_add rd (Fin a) (Fin b) = rd (a + b)"

fun num_div :: "(rat \<Rightarrow> jsnum) \<Rightarrow> jsnum \<Rightarrow> nat \<Rightarrow> jsnum" where
  "num_div rd NaN n = NaN"
| "num_div rd PosInf n = PosInf"
| "num_div rd NegInf n = NegInf"
| "num_div rd (Fin a) n =
     (if n = 0 then (if a = 0 then NaN else if 0 < a then PosInf else NegInf)
      else rd (a / rat_of_nat n))"

text \<open>
  \<^verbatim>\<open>JSON.stringify\<close>, which \<^verbatim>\<open>res.json\<close> applies to what it is given, writes a finite
  number as itself and \<^verbatim>\<open>NaN\<close> and the infinities as \<^verbatim>\<open>null\<close> (\<open>None\<close>).
\<close>

definition json_number :: "jsnum \<Rightarrow> rat option" where
  "json_number x = (case x of Fin r \<Rightarrow> Some r | _ \<Rightarrow> None)"

subsection \<open>Built-ins of the language\<close>

text \<open>
  \<open>trim\<close> is \<^verbatim>\<open>String.prototype.trim\<close>, \<open>toLowerCase\<close> is
  \<^verbatim>\<open>String.prototype.toLowerCase\<close>, \<open>to_double\<close> is the rounding of binary64
  arithmetic. \<open>ascii_js\<close> is the instance of the examples: it agrees with the language on
  ASCII text and on sums and quotients that are exact.
\<close>

record builtins =
  trim :: "string \<Rightarrow> string"
  toLowerCase :: "string \<Rightarrow> string"
  to_double :: "rat \<Rightarrow> jsnum"

definition ascii_js :: builtins where
  "ascii_js = \<lparr>trim = ascii_trim, toLowerCase = ascii_toLowerCase, to_double = Fin\<rparr>"

subsection \<open>Numbers read from the query string\<close>

text \<open>
  A value of \<^verbatim>\<open>req.query\<close>: a string or, for a repeated or bracketed parameter, an
  array or object. \<open>QObj\<close> carries the text that \<^verbatim>\<open>String(v)\<close> gives for it, which is
  what \<^verbatim>\<open>parseInt\<close> reads; the code asks nothing else of its content.
\<close>

datatype qval = QStr string | QObj string

fun to_text :: "qval \<Rightarrow> string" where
  "to_text (QStr s) = s"
| "to_text (QObj t) = t"

definition digit_val :: "nat \<Rightarrow> char \<Rightarrow> nat option" where
  "digit_val R c =
     (let n = (of_char c :: nat);
          v = (if 48 \<le> n \<and> n \<le> 57 then Some (n - 48)
               else if 97 \<le> n \<and> n \<le> 122 then Some (n - 87)
               else if 65 \<le> n \<and> n \<le> 90 then Some (n - 55)
               else None)
      in case v of None \<Rightarrow> None | Some d \<Rightarrow> if d < R then Some d else None)"

definition digits_value :: "nat \<Rightarrow> string \<Rightarrow> nat" where
  "digits_value R Z = foldl (\<lambda>a c. a * R + (case digit_val R c of Some d \<Rightarrow> d | None \<Rightarrow> 0)) 0 Z"

text \<open>
  \<^verbatim>\<open>parseInt(x)\<close> with no radix. An absent parameter is \<^verbatim>\<open>undefined\<close>, which
  \<^verbatim>\<open>parseInt\<close> reads as the text "undefined": no digits, so \<^verbatim>\<open>NaN\<close>.
\<close>

definition parseInt_string :: "string \<Rightarrow> int option" where
  "parseInt_string s =
     (let S = dropWhile is_space s;
          sign = (case S of c # _ \<Rightarrow> if c = CHR ''-'' then - 1 else 1 | [] \<Rightarrow> (1::int));
          S = (case S of c # r \<Rightarrow> if c = CHR ''-'' \<or> c = CHR ''+'' then r else S | [] \<Rightarrow> S);
          hex = (take 2 S = ''0x'' \<or> take 2 S = ''0X'');
          R = (if hex then 16 else 10);
          S = (if hex then drop 2 S else S);
          Z = takeWhile (\<lambda>c. digit_val R c \<noteq> None) S
      in if Z = [] then None else Some (sign * int (digits_value R Z)))"

definition parseInt :: "qval option \<Rightarrow> int option" where
  "parseInt x = (case x of None \<Rightarrow> None | Some v \<Rightarrow> parseInt_string (to_text v))"

text \<open>\<^verbatim>\<open>n || d\<close> on a number: \<^verbatim>\<open>NaN\<close> and \<^verbatim>\<open>0\<close> are falsy.\<close>

definition or_num :: "int option \<Rightarrow> int \<Rightarrow> int" where
  "or_num n d = (case n of None \<Rightarrow> d | Some k \<Rightarrow> if k = 0 then d else k)"

text \<open>\<^verbatim>\<open>xs.slice(start, stop)\<close>: a negative index counts from the end, both are clamped.\<close>

definition slice :: "'a list \<Rightarrow> int \<Rightarrow> int \<Rightarrow> 'a list" where
  "slice xs start stop =
     (let len = int (length xs);
          k = (if start < 0 then max (len + start) 0 else min start len);
          final = (if stop < 0 then max (len + stop) 0 else min stop len)
      in take (nat (final - k)) (drop (nat k) xs))"

subsection \<open>Products and responses\<close>

text \<open>The field \<^verbatim>\<open>id\<close> is named \<open>pid\<close>, since \<open>id\<close> is the identity function of HOL.\<close>

record product =
  pid :: string
  name :: string
  description :: string
  price :: jsnum
  category :: string
  inStock :: bool

type_synonym store = "product list"

definition products :: store where
  "products =
     [\<lparr>pid = ''1'', name = ''Laptop'',
       description = ''High-performance laptop with 16GB RAM'',
       price = Fin 1200, category = ''electronics'', inStock = True\<rparr>,
      \<lparr>pid = ''2'', name = ''Smartphone'',
       description = ''Latest model with 128GB storage'',
       price = Fin 800, category = ''electronics'', inStock = True\<rparr>,
      \<lparr>pid = ''3'', name = ''Coffee Maker'',
       description = ''Programmable coffee maker with timer'',
       price = Fin 50, category = ''kitchen'', inStock = False\<rparr>,
      \<lparr>pid = ''4'', name = ''Gaming Chair'',
       description = ''Ergonomic gaming chair with lumbar support'',
       price = Fin 300, category = ''furniture'', inStock = True\<rparr>,
      \<lparr>pid = ''5'', name = ''Wireless Headphones'',
       description = ''Noise-cancelling wireless headphones'',
       price = Fin 150, category = ''electronics'', inStock = True\<rparr>]"

record pagination =
  currentPage :: int
  totalPages :: int
  totalProducts :: nat
  productsPerPage :: int
  hasNextPage :: bool
  hasPrevPage :: bool

text \<open>
  The accumulator of the statistics pass. \<^verbatim>\<open>inStock\<close> is named \<open>inStockCount\<close> (the
  product field has the name), \<^verbatim>\<open>priceRange.min\<close> and \<^verbatim>\<open>priceRange.max\<close> are
  \<open>priceRange_min\<close> and \<open>priceRange_max\<close>, with \<^verbatim>\<open>null\<close> as \<open>None\<close>.
\<close>

record stats =
  total :: nat
  byCategory :: "(string \<times> nat) list"
  inStockCount :: nat
  outOfStock :: nat
  totalValue :: jsnum
  priceRange_min :: "jsnum option"
  priceRange_max :: "jsnum option"
  averagePrice :: jsnum

datatype payload =
    ErrorBody string
  | ErrorMessageBody string string
  | ValidationBody string "string list"
  | ProductsBody "product list" pagination
  | SearchBody string "product list" nat
  | StatsBody stats
  | ProductBody product
  | MessageBody string product
  | WelcomeBody

text \<open>A response: the status code (200 unless \<^verbatim>\<open>res.status\<close> sets it) and the JSON sent.\<close>

record response =
  status :: nat
  json :: payload

type_synonym query = "string \<rightharpoonup> qval"

subsection \<open>Errors thrown by handlers, and errorHandler\<close>

text \<open>
  A handler either throws or mutates the store and responds. \<open>OtherError\<close> carries
  \<^verbatim>\<open>err.name\<close> of an error that is neither of the two custom classes.
\<close>

datatype error = NotFoundError string | ValidationError string | OtherError string

definition errorHandler :: "error \<Rightarrow> response" where
  "errorHandler err =
     (case err of
        NotFoundError m \<Rightarrow> \<lparr>status = 404, json = ErrorBody m\<rparr>
      | ValidationError m \<Rightarrow> \<lparr>status = 400, json = ErrorBody m\<rparr>
      | OtherError n \<Rightarrow>
          if n = ''CastError'' then \<lparr>status = 400, json = ErrorBody ''Invalid ID format''\<rparr>
          else \<lparr>status = 500,
                json = ErrorMessageBody ''Internal Server Error''
                         ''Something went wrong on the server''\<rparr>)"

text \<open>
  A handler that only reads leaves the store as it is: \<open>respond\<close> sends what it returns,
  or what \<open>errorHandler\<close> makes of the error it throws.
\<close>

definition respond :: "store \<Rightarrow> error + response \<Rightarrow> store \<times> response" where
  "respond ps res = (case res of Inl err \<Rightarrow> (ps, errorHandler err) | Inr resp \<Rightarrow> (ps, resp))"

subsection \<open>GET /api/products\<close>

text \<open>
  Lines 166 to 179: the copy of the store after the category and the stock filter. A
  \<^verbatim>\<open>category\<close> that is an array or object is truthy and cannot be lower-cased:
  the first call of the filter's test throws a \<^verbatim>\<open>TypeError\<close>, so the filter fails
  unless the list is empty. An \<^verbatim>\<open>inStock\<close> of that kind is not the text "true".
\<close>

definition filteredProducts :: "builtins \<Rightarrow> store \<Rightarrow> query \<Rightarrow> error + product list" where
  "filteredProducts js ps q =
     (let filtered = ps
      in case (case q ''category'' of
                 None \<Rightarrow> Inr filtered
               | Some (QStr c) \<Rightarrow>
                   if c = [] then Inr filtered
                   else Inr (filter (\<lambda>p. toLowerCase js (category p) = toLowerCase js c) filtered)
               | Some (QObj t) \<Rightarrow>
                   if filtered = [] then Inr [] else Inl (OtherError ''TypeError'')) of
           Inl err \<Rightarrow> Inl err
         | Inr filtered \<Rightarrow>
             Inr (case q ''inStock'' of
                    None \<Rightarrow> filtered
                  | Some s \<Rightarrow>
                      (let inStockFilter = (s = QStr ''true'')
                       in filter (\<lambda>p. inStock p = inStockFilter) filtered)))"

definition get_products :: "builtins \<Rightarrow> store \<Rightarrow> query \<Rightarrow> error + response" where
  "get_products js ps q =
     (case filteredProducts js ps q of
        Inl err \<Rightarrow> Inl err
      | Inr filtered \<Rightarrow>
          (let page = or_num (parseInt (q ''page'')) 1;
               limit = or_num (parseInt (q ''limit'')) 10
           in if page < 1 \<or> limit < 1
              then Inr \<lparr>status = 400,
                        json = ErrorBody ''Page and limit must be positive integers''\<rparr>
              else
                (let startIndex = (page - 1) * limit;
                     endIndex = page * limit;
                     paginatedProducts = slice filtered startIndex endIndex
                 in Inr \<lparr>status = 200,
                     json = ProductsBody paginatedProducts
                       \<lparr>currentPage = page,
                        totalPages = \<lceil>rat_of_nat (length filtered) / rat_of_int limit\<rceil>,
                        totalProducts = length filtered,
                        productsPerPage = limit,
                        hasNextPage = (endIndex < int (length filtered)),
                        hasPrevPage = (page > 1)\<rparr>\<rparr>)))"

subsection \<open>GET /api/products/search\<close>

text \<open>
  A \<^verbatim>\<open>q\<close> that is an array or object is truthy, and \<^verbatim>\<open>q.toLowerCase()\<close> throws a
  \<^verbatim>\<open>TypeError\<close>.
\<close>

definition search_products :: "builtins \<Rightarrow> store \<Rightarrow> query \<Rightarrow> error + response" where
  \<open>search_products js ps qry =
     (case qry ''q'' of
        None \<Rightarrow>
          Inr \<lparr>status = 400, json = ErrorBody ''Search query parameter "q" is required''\<rparr>
      | Some (QObj t) \<Rightarrow> Inl (OtherError ''TypeError'')
      | Some (QStr q) \<Rightarrow>
          if q = []
          then Inr \<lparr>status = 400, json = ErrorBody ''Search query parameter "q" is required''\<rparr>
          else
            (let searchTerm = toLowerCase js q;
                 searchResults =
                   filter (\<lambda>p. str_includes (toLowerCase js (name p)) searchTerm \<or>
                                str_includes (toLowerCase js (description p)) searchTerm) ps
             in Inr \<lparr>status = 200,
                      json = SearchBody q searchResults (length searchResults)\<rparr>))\<close>

subsection \<open>GET /api/stats\<close>

text \<open>
  The reducer of lines 231 to 251. \<^verbatim>\<open>!acc.priceRange.min\<close> holds for \<^verbatim>\<open>null\<close>,
  for \<^verbatim>\<open>0\<close> and for \<^verbatim>\<open>NaN\<close>; \<^verbatim>\<open>acc.byCategory[c] || 0\<close> is the count, or 0
  when the key is new.
\<close>

definition not_num :: "jsnum option \<Rightarrow> bool" where
  "not_num x = (case x of None \<Rightarrow> True | Some v \<Rightarrow> v = Fin 0 \<or> v = NaN)"

definition stats_step :: "builtins \<Rightarrow> stats \<Rightarrow> product \<Rightarrow> stats" where
  "stats_step js acc product =
     (let acc = acc\<lparr>byCategory :=
                  AList.update (category product)
                    ((case map_of (byCategory acc) (category product) of
                        None \<Rightarrow> 0 | Some n \<Rightarrow> n) + 1)
                    (byCategory acc)\<rparr>;
          acc = (if inStock product then acc\<lparr>inStockCount := inStockCount acc + 1\<rparr>
                 else acc\<lparr>outOfStock := outOfStock acc + 1\<rparr>);
          acc = acc\<lparr>totalValue := num_add (to_double js) (totalValue acc) (price product)\<rparr>;
          acc = (if not_num (priceRange_min acc) \<or>
                    (case priceRange_min acc of
                       Some m \<Rightarrow> num_less (price product) m | None \<Rightarrow> False)
                 then acc\<lparr>priceRange_min := Some (price product)\<rparr> else acc);
          acc = (if not_num (priceRange_max acc) \<or>
                    (case priceRange_max acc of
                       Some m \<Rightarrow> num_less m (price product) | None \<Rightarrow> False)
                 then acc\<lparr>priceRange_max := Some (price product)\<rparr> else acc)
      in acc)"

text \<open>Line 262 divides only when \<^verbatim>\<open>stats.total > 0\<close>.\<close>

definition computeStats :: "builtins \<Rightarrow> store \<Rightarrow> stats" where
  "computeStats js ps =
     (let stats = foldl (stats_step js)
                    \<lparr>total = length ps, byCategory = [], inStockCount = 0, outOfStock = 0,
                     totalValue = Fin 0, priceRange_min = None, priceRange_max = None,
                     averagePrice = Fin 0\<rparr> ps
      in stats\<lparr>averagePrice :=
                 (if total stats > 0
                  then num_div (to_double js) (totalValue stats) (total stats)
                  else Fin 0)\<rparr>)"

definition get_stats :: "builtins \<Rightarrow> store \<Rightarrow> response" where
  "get_stats js ps = \<lparr>status = 200, json = StatsBody (computeStats js ps)\<rparr>"

subsection \<open>Request bodies, authMiddleware and validateProduct\<close>

text \<open>
  A property of the decoded JSON body. \<open>JObj\<close> stands for any array or object: the code
  only asks for its type and its truth value.
\<close>

datatype jsval = JNull | JBool bool | JNum jsnum | JStr string | JObj

datatype jstype = TUndefined | TObject | TBoolean | TNumber | TString

fun typeof :: "jsval option \<Rightarrow> jstype" where
  "typeof None = TUndefined"
| "typeof (Some JNull) = TObject"
| "typeof (Some (JBool _)) = TBoolean"
| "typeof (Some (JNum _)) = TNumber"
| "typeof (Some (JStr _)) = TString"
| "typeof (Some JObj) = TObject"

text \<open>\<^verbatim>\<open>!x\<close>, and \<^verbatim>\<open>Boolean(x)\<close> as its negation.\<close>

fun falsy :: "jsval option \<Rightarrow> bool" where
  "falsy None = True"
| "falsy (Some JNull) = True"
| "falsy (Some (JBool b)) = (\<not> b)"
| "falsy (Some (JNum n)) = (n = Fin 0 \<or> n = NaN)"
| "falsy (Some (JStr s)) = (s = [])"
| "falsy (Some JObj) = False"

type_synonym reqbody = "string \<rightharpoonup> jsval"

definition authMiddleware :: "string option \<Rightarrow> response option" where
  "authMiddleware apiKey =
     (if (case apiKey of None \<Rightarrow> True | Some k \<Rightarrow> k = []) \<or> apiKey \<noteq> Some ''your-secret-api-key''
      then Some \<lparr>status = 401,
                 json = ErrorBody
                   ''Unauthorized: Invalid or missing API key. Include x-api-key header.''\<rparr>
      else None)"

definition blank_string :: "builtins \<Rightarrow> jsval option \<Rightarrow> bool" where
  "blank_string js x = (case x of Some (JStr s) \<Rightarrow> length (trim js s) = 0 | _ \<Rightarrow> False)"

definition validation_errors :: "builtins \<Rightarrow> reqbody \<Rightarrow> string list" where
  "validation_errors js b =
     (let name = b ''name''; description = b ''description''; price = b ''price'';
          category = b ''category''; inStock = b ''inStock'';
          errors = [];
          errors = (if falsy name \<or> typeof name \<noteq> TString \<or> blank_string js name
                    then errors @ [''Name is required and must be a non-empty string'']
                    else errors);
          errors = (if falsy description \<or> typeof description \<noteq> TString \<or>
                       blank_string js description
                    then errors @ [''Description is required and must be a non-empty string'']
                    else errors);
          errors = (if price = None \<or> typeof price \<noteq> TNumber \<or>
                       (case price of Some (JNum r) \<Rightarrow> num_le r (Fin 0) | _ \<Rightarrow> False)
                    then errors @ [''Price is required and must be a positive number'']
                    else errors);
          errors = (if falsy category \<or> typeof category \<noteq> TString \<or> blank_string js category
                    then errors @ [''Category is required and must be a non-empty string'']
                    else errors);
          errors = (if inStock \<noteq> None \<and> typeof inStock \<noteq> TBoolean
                    then errors @ [''inStock must be a boolean value'']
                    else errors)
      in errors)"

definition validateProduct :: "builtins \<Rightarrow> reqbody \<Rightarrow> response option" where
  "validateProduct js b =
     (let errors = validation_errors js b
      in if length errors > 0
         then Some \<lparr>status = 400, json = ValidationBody ''Validation failed'' errors\<rparr>
         else None)"

subsection \<open>Handlers of the product routes\<close>

text \<open>
  \<^verbatim>\<open>find\<close> is \<open>List.find\<close>; \<^verbatim>\<open>findIndex\<close> returns the first index whose element
  satisfies the test, \<^verbatim>\<open>-1\<close> being \<open>None\<close>.
\<close>

fun findIndex :: "('a \<Rightarrow> bool) \<Rightarrow> 'a list \<Rightarrow> nat option" where
  "findIndex P [] = None"
| "findIndex P (x # xs) =
     (if P x then Some 0 else (case findIndex P xs of None \<Rightarrow> None | Some i \<Rightarrow> Some (Suc i)))"

definition not_found :: "string \<Rightarrow> error" where
  "not_found i = NotFoundError (''Product with ID '' @ i @ '' not found'')"

definition get_product :: "store \<Rightarrow> string \<Rightarrow> error + store \<times> response" where
  "get_product ps i =
     (case find (\<lambda>p. pid p = i) ps of
        None \<Rightarrow> Inl (not_found i)
      | Some product \<Rightarrow> Inr (ps, \<lparr>status = 200, json = ProductBody product\<rparr>))"

text \<open>
  The two writing handlers run after \<open>validateProduct\<close>, which lets through only bodies
  whose \<^verbatim>\<open>name\<close>, \<^verbatim>\<open>description\<close> and \<^verbatim>\<open>category\<close> are strings and whose
  \<^verbatim>\<open>price\<close> is a number (lemma \<open>validation_errors_Nil\<close>). On such a body
  \<^verbatim>\<open>Number(price)\<close> is the price itself. The other shapes cannot reach the handlers;
  the model gives them the \<^verbatim>\<open>TypeError\<close> that \<^verbatim>\<open>name.trim()\<close> raises there.
  In \<open>post_product\<close> the parameter \<open>uuid\<close> is what \<^verbatim>\<open>uuidv4()\<close> returns.
\<close>

definition post_product ::
  "builtins \<Rightarrow> store \<Rightarrow> string \<Rightarrow> reqbody \<Rightarrow> error + store \<times> response" where
  "post_product js ps uuid b =
     (case (b ''name'', b ''description'', b ''price'', b ''category'') of
        (Some (JStr n), Some (JStr d), Some (JNum r), Some (JStr c)) \<Rightarrow>
          (let inStockV = (case b ''inStock'' of None \<Rightarrow> Some (JBool True) | Some v \<Rightarrow> Some v);
               newProduct = \<lparr>pid = uuid, name = trim js n, description = trim js d, price = r,
                             category = toLowerCase js (trim js c), inStock = (\<not> falsy inStockV)\<rparr>
           in Inr (ps @ [newProduct],
                   \<lparr>status = 201, json = MessageBody ''Product created successfully'' newProduct\<rparr>))
      | _ \<Rightarrow> Inl (OtherError ''TypeError''))"

definition put_product ::
  "builtins \<Rightarrow> store \<Rightarrow> string \<Rightarrow> reqbody \<Rightarrow> error + store \<times> response" where
  "put_product js ps i b =
     (case findIndex (\<lambda>p. pid p = i) ps of
        None \<Rightarrow> Inl (not_found i)
      | Some productIndex \<Rightarrow>
          (case (b ''name'', b ''description'', b ''price'', b ''category'') of
             (Some (JStr n), Some (JStr d), Some (JNum r), Some (JStr c)) \<Rightarrow>
               (let updatedProduct =
                      (ps ! productIndex)\<lparr>name := trim js n, description := trim js d, price := r,
                                           category := toLowerCase js (trim js c),
                                           inStock := (\<not> falsy (b ''inStock''))\<rparr>
                in Inr (ps[productIndex := updatedProduct],
                        \<lparr>status = 200,
                         json = MessageBody ''Product updated successfully'' updatedProduct\<rparr>))
           | _ \<Rightarrow> Inl (OtherError ''TypeError'')))"

text \<open>\<^verbatim>\<open>products.splice(productIndex, 1)[0]\<close> removes the element and returns it.\<close>

definition delete_product :: "store \<Rightarrow> string \<Rightarrow> error + store \<times> response" where
  "delete_product ps i =
     (case findIndex (\<lambda>p. pid p = i) ps of
        None \<Rightarrow> Inl (not_found i)
      | Some productIndex \<Rightarrow>
          (let deletedProduct = ps ! productIndex
           in Inr (take productIndex ps @ drop (Suc productIndex) ps,
                   \<lparr>status = 200,
                    json = MessageBody ''Product deleted successfully'' deletedProduct\<rparr>)))"

subsection \<open>The route table\<close>

text \<open>
  Methods other than these four are not modelled. \<open>req_method\<close> is \<^verbatim>\<open>req.method\<close>,
  \<open>req_path\<close> holds the non-empty segments of the URL path, \<open>x_api_key\<close> is \<^verbatim>\<open>req.headers['x-api-key']\<close>.
\<close>

datatype http_method = GET | POST | PUT | DELETE

fun method_name :: "http_method \<Rightarrow> string" where
  "method_name GET = ''GET''"
| "method_name POST = ''POST''"
| "method_name PUT = ''PUT''"
| "method_name DELETE = ''DELETE''"

record request =
  req_method :: http_method
  req_path :: "string list"
  originalUrl :: string
  query :: query
  x_api_key :: "string option"
  body :: reqbody

text \<open>
  A thrown error leaves the store as it was (every \<^verbatim>\<open>throw\<close> precedes the handler's
  write) and goes to \<open>errorHandler\<close>.
\<close>

definition finish :: "store \<Rightarrow> error + store \<times> response \<Rightarrow> store \<times> response" where
  "finish ps res = (case res of Inl err \<Rightarrow> (ps, errorHandler err) | Inr out \<Rightarrow> out)"

text \<open>
  Route-scoped middleware runs left to right; the first one that responds ends the chain.
\<close>

fun chain :: "store \<Rightarrow> response option list \<Rightarrow> (error + store \<times> response) \<Rightarrow> store \<times> response" where
  "chain ps [] h = finish ps h"
| "chain ps (None # ms) h = chain ps ms h"
| "chain ps (Some resp # ms) h = (ps, resp)"

text \<open>
  The routes in the order of registration; the first match answers. Express compares the
  fixed segments, which are ASCII, without regard to case, and \<^verbatim>\<open>:id\<close> takes any one
  segment.
\<close>

definition route :: "builtins \<Rightarrow> store \<Rightarrow> string \<Rightarrow> request \<Rightarrow> store \<times> response" where
  "route js ps uuid req =
     (let m = req_method req; segs = req_path req; p = map ascii_toLowerCase segs
      in if m = GET \<and> p = [] then (ps, \<lparr>status = 200, json = WelcomeBody\<rparr>)
         else if m = GET \<and> p = [''api'', ''products''] then
           respond ps (get_products js ps (query req))
         else if m = GET \<and> p = [''api'', ''products'', ''search''] then
           respond ps (search_products js ps (query req))
         else if m = GET \<and> p = [''api'', ''stats''] then
           (ps, get_stats js ps)
         else if m = GET \<and> length p = 3 \<and> take 2 p = [''api'', ''products''] then
           finish ps (get_product ps (segs ! 2))
         else if m = POST \<and> p = [''api'', ''products''] then
           chain ps [authMiddleware (x_api_key req), validateProduct js (body req)]
             (post_product js ps uuid (body req))
         else if m = PUT \<and> length p = 3 \<and> take 2 p = [''api'', ''products''] then
           chain ps [authMiddleware (x_api_key req), validateProduct js (body req)]
             (put_product js ps (segs ! 2) (body req))
         else if m = DELETE \<and> length p = 3 \<and> take 2 p = [''api'', ''products''] then
           chain ps [authMiddleware (x_api_key req)]
             (delete_product ps (segs ! 2))
         else (ps, \<lparr>status = 404,
                    json = ErrorMessageBody ''Route not found''
                             (''Cannot '' @ method_name m @ '' '' @ originalUrl req)\<rparr>))"

subsection \<open>Body decoding and the application\<close>

text \<open>
  \<^verbatim>\<open>bodyParser.json()\<close> runs before every route. When it cannot decode the body it
  passes an error on, which reaches the handler of lines 89 to 94. Of that error the
  handler reads three things: whether it is a \<^verbatim>\<open>SyntaxError\<close>, its \<^verbatim>\<open>status\<close>, and
  whether it has a \<^verbatim>\<open>body\<close> property. If all three fit, it answers 400; otherwise it
  calls \<^verbatim>\<open>next()\<close> without the error and the routes run.
\<close>

record parse_error =
  is_SyntaxError :: bool
  error_status :: "nat option"
  has_body :: bool

definition jsonErrorHandler :: "parse_error \<Rightarrow> response option" where
  "jsonErrorHandler error =
     (if is_SyntaxError error \<and> error_status error = Some 400 \<and> has_body error
      then Some \<lparr>status = 400, json = ErrorBody ''Invalid JSON format''\<rparr>
      else None)"

text \<open>
  \<open>body_rejected\<close>: the body parser raised an error and the handler answers it.
\<close>

definition body_rejected :: "parse_error option \<Rightarrow> bool" where
  "body_rejected parsed =
     (case parsed of None \<Rightarrow> False | Some error \<Rightarrow> jsonErrorHandler error \<noteq> None)"

text \<open>
  \<open>parsed\<close> is what the body parser handed on: \<open>None\<close> when it decoded the body or found
  none to decode, the error otherwise. \<open>body req\<close> is \<^verbatim>\<open>req.body\<close> as the parser left it.
\<close>

definition app ::
  "builtins \<Rightarrow> store \<Rightarrow> string \<Rightarrow> parse_error option \<Rightarrow> request \<Rightarrow> store \<times> response" where
  "app js ps uuid parsed req =
     (case parsed of
        None \<Rightarrow> route js ps uuid req
      | Some error \<Rightarrow>
          (case jsonErrorHandler error of
             Some resp \<Rightarrow> (ps, resp)
           | None \<Rightarrow> route js ps uuid req))"

subsection \<open>Stores the server can hold\<close>

text \<open>
  The initial list, and whatever a request leaves behind. A decoded JSON body holds no
  \<^verbatim>\<open>NaN\<close>: JSON has no text for it.
\<close>

inductive reachable :: "builtins \<Rightarrow> store \<Rightarrow> bool" for js :: builtins where
  initial: "reachable js products"
| request: "reachable js ps \<Longrightarrow> body req ''price'' \<noteq> Some (JNum NaN) \<Longrightarrow>
            reachable js (fst (app js ps uuid parsed req))"

subsection \<open>Example requests\<close>

text \<open>
  Concrete requests for the examples below: a write request that carries the right key, a
  read request with a query, the body of the create example of the specification with a
  chosen category text and price, a body that is valid but has no \<^verbatim>\<open>inStock\<close>
  property, and the error that the body parser raises on text that is not JSON.
\<close>

definition keyed_request :: "http_method \<Rightarrow> string list \<Rightarrow> reqbody \<Rightarrow> request" where
  "keyed_request m p b =
     \<lparr>req_method = m, req_path = p, originalUrl = concat (map (\<lambda>s. ''/'' @ s) p),
      query = Map.empty, x_api_key = Some ''your-secret-api-key'', body = b\<rparr>"

definition read_request :: "string list \<Rightarrow> query \<Rightarrow> request" where
  "read_request p q =
     \<lparr>req_method = GET, req_path = p, originalUrl = concat (map (\<lambda>s. ''/'' @ s) p),
      query = q, x_api_key = None, body = Map.empty\<rparr>"

definition test_body :: "string \<Rightarrow> jsnum \<Rightarrow> reqbody" where
  "test_body c r =
     [''name'' \<mapsto> JStr ''Test'', ''description'' \<mapsto> JStr ''d'', ''price'' \<mapsto> JNum r,
      ''category'' \<mapsto> JStr c, ''inStock'' \<mapsto> JBool True]"

definition body_without_inStock :: reqbody where
  "body_without_inStock =
     [''name'' \<mapsto> JStr ''Desk'', ''description'' \<mapsto> JStr ''Oak desk'',
      ''price'' \<mapsto> JNum (Fin 250), ''category'' \<mapsto> JStr ''Furniture'']"

definition malformed_json :: parse_error where
  "malformed_json = \<lparr>is_SyntaxError = True, error_status = Some 400, has_body = True\<rparr>"

section \<open>Properties\<close>

subsection \<open>Strings, slices and indices\<close>

lemma str_includes_iff: "str_includes s t = is_substring t s"
proof (induction s)
  case Nil
  show ?case by (auto simp: is_substring_def)
next
  case (Cons c s)
  have "is_substring t (c # s) \<longleftrightarrow> take (length t) (c # s) = t \<or> is_substring t s"
  proof
    assume "is_substring t (c # s)"
    then obtain pre post where e: "c # s = pre @ t @ post"
      by (auto simp: is_substring_def)
    show "take (length t) (c # s) = t \<or> is_substring t s"
    proof (cases pre)
      case Nil
      with e show ?thesis by simp
    next
      case (Cons a pre')
      with e have "s = pre' @ t @ post" by simp
      then show ?thesis by (auto simp: is_substring_def)
    qed
  next
    assume "take (length t) (c # s) = t \<or> is_substring t s"
    then show "is_substring t (c # s)"
    proof
      assume "take (length t) (c # s) = t"
      then have "c # s = [] @ t @ drop (length t) (c # s)"
        by (metis append_Nil append_take_drop_id)
      then show ?thesis unfolding is_substring_def by blast
    next
      assume "is_substring t s"
      then obtain pre post where "s = pre @ t @ post" by (auto simp: is_substring_def)
      then have "c # s = (c # pre) @ t @ post" by simp
      then show ?thesis unfolding is_substring_def by blast
    qed
  qed
  with Cons show ?case by simp
qed

lemma slice_window:
  assumes "0 \<le> a" "a \<le> b"
  shows "slice xs a b = take (nat (b - a)) (drop (nat a) xs)"
proof (cases "a \<le> int (length xs)")
  case True
  show ?thesis
  proof (cases "b \<le> int (length xs)")
    case True
    with assms \<open>a \<le> int (length xs)\<close> show ?thesis
      by (simp add: slice_def Let_def min_def)
  next
    case False
    with assms \<open>a \<le> int (length xs)\<close> show ?thesis
      by (simp add: slice_def Let_def min_def nat_diff_distrib)
  qed
next
  case False
  with assms show ?thesis
    by (simp add: slice_def Let_def min_def)
qed

lemma take_drop_nths:
  "take n (drop k xs) = map (\<lambda>i. xs ! i) [k ..< min (k + n) (length xs)]"
  by (auto simp: list_eq_iff_nth_eq min_def)

lemma findIndex_Some:
  "findIndex P xs = Some i \<Longrightarrow> i < length xs \<and> P (xs ! i) \<and> (\<forall>j<i. \<not> P (xs ! j))"
proof (induction xs arbitrary: i)
  case Nil
  then show ?case by simp
next
  case (Cons x xs)
  show ?case
  proof (cases "P x")
    case True
    with Cons.prems show ?thesis by simp
  next
    case False
    with Cons.prems obtain k where k: "findIndex P xs = Some k" "i = Suc k"
      by (auto split: option.splits)
    from Cons.IH[OF k(1)] False k(2) show ?thesis
      by (auto simp: nth_Cons split: nat.splits)
  qed
qed

lemma findIndex_None: "findIndex P xs = None \<longleftrightarrow> (\<forall>x\<in>set xs. \<not> P x)"
  by (induction xs) (auto split: option.splits)

lemma ceiling_div:
  assumes "0 < (l::int)"
  shows "\<lceil>rat_of_nat n / rat_of_int l\<rceil> = (int n + l - 1) div l"
proof -
  define x where "x = int n + l - 1"
  define z where "z = x div l"
  have e: "x = l * z + x mod l" unfolding z_def by simp
  have m: "0 \<le> x mod l" "x mod l < l" using assms by simp_all
  have lo: "z * l - l < int n" using e m unfolding x_def by (simp add: mult.commute)
  have hi: "int n \<le> z * l" using e m unfolding x_def by (simp add: mult.commute)
  have l0: "0 < rat_of_int l" using assms by simp
  have "rat_of_int (z * l - l) < rat_of_int (int n)"
    using lo by (simp only: of_int_less_iff)
  then have "(rat_of_int z - 1) * rat_of_int l < rat_of_nat n"
    by (simp add: algebra_simps)
  then have a: "rat_of_int z - 1 < rat_of_nat n / rat_of_int l"
    using l0 by (simp add: pos_less_divide_eq)
  have "rat_of_int (int n) \<le> rat_of_int (z * l)"
    using hi by (simp only: of_int_le_iff)
  then have "rat_of_nat n \<le> rat_of_int z * rat_of_int l"
    by simp
  then have b: "rat_of_nat n / rat_of_int l \<le> rat_of_int z"
    using l0 by (simp add: pos_divide_le_eq)
  from a b have "\<lceil>rat_of_nat n / rat_of_int l\<rceil> = z"
    by (intro ceiling_unique) auto
  then show ?thesis by (simp add: z_def x_def)
qed

subsection \<open>validateProduct\<close>

lemma push_chain:
  "(let e0 = ([] :: 'a list);
        e1 = (if A then e0 @ [a] else e0);
        e2 = (if B then e1 @ [b] else e1);
        e3 = (if C then e2 @ [c] else e2);
        e4 = (if D then e3 @ [d] else e3);
        e5 = (if E then e4 @ [e] else e4)
    in e5) =
   (if A then [a] else []) @ (if B then [b] else []) @ (if C then [c] else []) @
   (if D then [d] else []) @ (if E then [e] else [])"
  by (cases A; cases B; cases C; cases D; cases E) (simp_all only: Let_def if_True if_False append_Nil append_Nil2 append_Cons append_assoc)

lemma validation_errors_parts:
  "validation_errors js b =
     (if falsy (b ''name'') \<or> typeof (b ''name'') \<noteq> TString \<or> blank_string js (b ''name'')
      then [''Name is required and must be a non-empty string''] else []) @
     (if falsy (b ''description'') \<or> typeof (b ''description'') \<noteq> TString \<or>
         blank_string js (b ''description'')
      then [''Description is required and must be a non-empty string''] else []) @
     (if b ''price'' = None \<or> typeof (b ''price'') \<noteq> TNumber \<or>
         (case b ''price'' of Some (JNum r) \<Rightarrow> num_le r (Fin 0) | _ \<Rightarrow> False)
      then [''Price is required and must be a positive number''] else []) @
     (if falsy (b ''category'') \<or> typeof (b ''category'') \<noteq> TString \<or>
         blank_string js (b ''category'')
      then [''Category is required and must be a non-empty string''] else []) @
     (if b ''inStock'' \<noteq> None \<and> typeof (b ''inStock'') \<noteq> TBoolean
      then [''inStock must be a boolean value''] else [])"
proof -
  have "validation_errors js b =
    (let e0 = [];
        e1 = (if falsy (b ''name'') \<or> typeof (b ''name'') \<noteq> TString \<or> blank_string js (b ''name'') then e0 @ [''Name is required and must be a non-empty string''] else e0);
        e2 = (if falsy (b ''description'') \<or> typeof (b ''description'') \<noteq> TString \<or>
         blank_string js (b ''description'') then e1 @ [''Description is required and must be a non-empty string''] else e1);
        e3 = (if b ''price'' = None \<or> typeof (b ''price'') \<noteq> TNumber \<or>
         (case b ''price'' of Some (JNum r) \<Rightarrow> num_le r (Fin 0) | _ \<Rightarrow> False) then e2 @ [''Price is required and must be a positive number''] else e2);
        e4 = (if falsy (b ''category'') \<or> typeof (b ''category'') \<noteq> TString \<or>
         blank_string js (b ''category'') then e3 @ [''Category is required and must be a non-empty string''] else e3);
        e5 = (if b ''inStock'' \<noteq> None \<and> typeof (b ''inStock'') \<noteq> TBoolean then e4 @ [''inStock must be a boolean value''] else e4)
    in e5)"
    unfolding validation_errors_def by (simp only: Let_def)
  then show ?thesis by (simp only: push_chain)
qed

lemma ascii_trim_Nil: "ascii_trim [] = []"
  by (simp add: ascii_trim_def)

lemma valid_str:
  "\<not> (falsy x \<or> typeof x \<noteq> TString \<or> blank_string js x) \<longleftrightarrow>
     (\<exists>s. x = Some (JStr s) \<and> s \<noteq> [] \<and> trim js s \<noteq> [])"
  by (cases x rule: typeof.cases) (auto simp: blank_string_def)

lemma valid_price:
  "\<not> (x = None \<or> typeof x \<noteq> TNumber \<or>
        (case x of Some (JNum r) \<Rightarrow> num_le r (Fin 0) | _ \<Rightarrow> False)) \<longleftrightarrow>
     (\<exists>r. x = Some (JNum r) \<and> \<not> num_le r (Fin 0))"
  by (cases x rule: typeof.cases) auto

lemma valid_inStock:
  "\<not> (x \<noteq> None \<and> typeof x \<noteq> TBoolean) \<longleftrightarrow> (x = None \<or> (\<exists>v. x = Some (JBool v)))"
  by (cases x rule: typeof.cases) auto

lemma validation_errors_Nil:
  "validation_errors js b = [] \<longleftrightarrow>
     (\<exists>n d r c. b ''name'' = Some (JStr n) \<and> n \<noteq> [] \<and> trim js n \<noteq> [] \<and>
           b ''description'' = Some (JStr d) \<and> d \<noteq> [] \<and> trim js d \<noteq> [] \<and>
           b ''price'' = Some (JNum r) \<and> \<not> num_le r (Fin 0) \<and>
           b ''category'' = Some (JStr c) \<and> c \<noteq> [] \<and> trim js c \<noteq> []) \<and>
     (b ''inStock'' = None \<or> (\<exists>v. b ''inStock'' = Some (JBool v)))"
proof -
  have "validation_errors js b = [] \<longleftrightarrow>
     \<not> (falsy (b ''name'') \<or> typeof (b ''name'') \<noteq> TString \<or> blank_string js (b ''name'')) \<and>
     \<not> (falsy (b ''description'') \<or> typeof (b ''description'') \<noteq> TString \<or>
         blank_string js (b ''description'')) \<and>
     \<not> (b ''price'' = None \<or> typeof (b ''price'') \<noteq> TNumber \<or>
         (case b ''price'' of Some (JNum r) \<Rightarrow> num_le r (Fin 0) | _ \<Rightarrow> False)) \<and>
     \<not> (falsy (b ''category'') \<or> typeof (b ''category'') \<noteq> TString \<or>
         blank_string js (b ''category'')) \<and>
     \<not> (b ''inStock'' \<noteq> None \<and> typeof (b ''inStock'') \<noteq> TBoolean)"
    unfolding validation_errors_parts append_is_Nil_conv
    by (simp only: if_split[of "\<lambda>xs. xs = []"] list.distinct simp_thms)
  then show ?thesis
    unfolding valid_str valid_price valid_inStock by blast
qed

lemma validateProduct_None: "validateProduct js b = None \<longleftrightarrow> validation_errors js b = []"
  by (simp add: validateProduct_def Let_def)


subsection \<open>Listing: pagination\<close>

lemma route_GET_products:
  "req_method req = GET \<Longrightarrow> map ascii_toLowerCase (req_path req) = [''api'', ''products''] \<Longrightarrow>
   route js ps uuid req = respond ps (get_products js ps (query req))"
  by (auto simp: route_def Let_def)

lemma parseInt_None: "parseInt None = None"
  by (simp add: parseInt_def)

lemma parseInt_zero: "parseInt (Some (QStr ''0'')) = Some 0"
  by (simp add: parseInt_def parseInt_string_def is_space_def digit_val_def digits_value_def Let_def)

lemma lower_api: "ascii_toLowerCase ''api'' = ''api''" "ascii_toLowerCase ''products'' = ''products''"
  "ascii_toLowerCase ''search'' = ''search''" "ascii_toLowerCase ''stats'' = ''stats''"
  by (simp_all add: ascii_toLowerCase_def lower_char_def)

lemma get_products_served:
  assumes "filteredProducts js ps q = Inr F"
    and "page = or_num (parseInt (q ''page'')) 1" "limit = or_num (parseInt (q ''limit'')) 10"
    and "1 \<le> page" "1 \<le> limit"
  shows "get_products js ps q =
     Inr \<lparr>status = 200,
      json = ProductsBody
        (take (nat limit) (drop (nat ((page - 1) * limit)) F))
        \<lparr>currentPage = page,
         totalPages = (int (length F) + limit - 1) div limit,
         totalProducts = length F,
         productsPerPage = limit,
         hasNextPage = (page * limit < int (length F)),
         hasPrevPage = (1 < page)\<rparr>\<rparr>"
proof -
  have s: "0 \<le> (page - 1) * limit" "(page - 1) * limit \<le> page * limit"
    using assms(4,5) by (simp_all add: mult_right_mono)
  have d: "page * limit - (page - 1) * limit = limit"
    by (simp add: algebra_simps)
  have "slice F ((page - 1) * limit) (page * limit) =
        take (nat limit) (drop (nat ((page - 1) * limit)) F)"
    using slice_window[OF s] by (simp only: d)
  moreover have "\<lceil>rat_of_nat (length F) / rat_of_int limit\<rceil> =
        (int (length F) + limit - 1) div limit"
    using assms(5) by (intro ceiling_div) simp
  moreover have "\<not> (page < 1 \<or> limit < 1)" using assms(4,5) by simp
  ultimately show ?thesis
    unfolding get_products_def Let_def assms(1) assms(2)[symmetric] assms(3)[symmetric]
    by simp
qed

lemma get_products_rejected:
  assumes "filteredProducts js ps q = Inr F"
    and "or_num (parseInt (q ''page'')) 1 < 1 \<or> or_num (parseInt (q ''limit'')) 10 < 1"
  shows "get_products js ps q =
     Inr \<lparr>status = 400, json = ErrorBody ''Page and limit must be positive integers''\<rparr>"
  using assms by (auto simp: get_products_def Let_def)

lemma or_num_negative: "n < 0 \<Longrightarrow> or_num (Some n) d = n"
  by (simp add: or_num_def)

lemma or_num_default: "or_num None d = d" "or_num (Some 0) d = d"
  by (simp_all add: or_num_def)

text \<open>
  Claim C1 (pagination guard). The claim: a \<^verbatim>\<open>page\<close> or \<^verbatim>\<open>limit\<close> that parses to a
  non-positive number is answered with status 400, in particular \<^verbatim>\<open>page=0\<close>. The code
  on \<^verbatim>\<open>GET /api/products?page=0\<close> over the initial store: \<^verbatim>\<open>parseInt("0")\<close> is 0,
  \<^verbatim>\<open>0 || 1\<close> is 1, the guard \<^verbatim>\<open>page < 1\<close> does not fire, and the request is served
  with status 200 as page 1 with the default limit 10; \<^verbatim>\<open>limit=0\<close> is served the same
  way, with limit 10. Negative values are rejected
  (\<open>get_products_rejected\<close> with \<open>or_num_negative\<close>), absent and non-numeric ones take
  the defaults (\<open>or_num_default\<close>, \<open>parseInt_None\<close>).
\<close>

theorem page_zero_is_served:
  "route ascii_js products [] \<lparr>req_method = GET, req_path = [''api'', ''products''],
      originalUrl = ''/api/products?page=0'', query = [''page'' \<mapsto> QStr ''0''],
      x_api_key = None, body = Map.empty\<rparr> =
   (products,
    \<lparr>status = 200,
     json = ProductsBody products
       \<lparr>currentPage = 1, totalPages = 1, totalProducts = 5, productsPerPage = 10,
         hasNextPage = False, hasPrevPage = False\<rparr>\<rparr>) \<and>
   route ascii_js products [] \<lparr>req_method = GET, req_path = [''api'', ''products''],
      originalUrl = ''/api/products?limit=0'', query = [''limit'' \<mapsto> QStr ''0''],
      x_api_key = None, body = Map.empty\<rparr> =
   (products,
    \<lparr>status = 200,
     json = ProductsBody products
       \<lparr>currentPage = 1, totalPages = 1, totalProducts = 5, productsPerPage = 10,
         hasNextPage = False, hasPrevPage = False\<rparr>\<rparr>)"
proof -
  have served: "get_products ascii_js products q =
    Inr \<lparr>status = 200,
     json = ProductsBody products
       \<lparr>currentPage = 1, totalPages = 1, totalProducts = 5, productsPerPage = 10,
         hasNextPage = False, hasPrevPage = False\<rparr>\<rparr>"
    if f: "filteredProducts ascii_js products q = Inr products"
      and p: "1 = or_num (parseInt (q ''page'')) 1" "10 = or_num (parseInt (q ''limit'')) 10"
    for q
    by (simp add: get_products_served[OF f p]) (simp add: products_def)
  define q1 :: query where "q1 = [''page'' \<mapsto> QStr ''0'']"
  define q2 :: query where "q2 = [''limit'' \<mapsto> QStr ''0'']"
  have "get_products ascii_js products q1 =
    Inr \<lparr>status = 200,
     json = ProductsBody products
       \<lparr>currentPage = 1, totalPages = 1, totalProducts = 5, productsPerPage = 10,
         hasNextPage = False, hasPrevPage = False\<rparr>\<rparr>"
    by (rule served)
       (simp_all add: q1_def parseInt_zero parseInt_None or_num_def filteredProducts_def)
  moreover have "get_products ascii_js products q2 =
    Inr \<lparr>status = 200,
     json = ProductsBody products
       \<lparr>currentPage = 1, totalPages = 1, totalProducts = 5, productsPerPage = 10,
         hasNextPage = False, hasPrevPage = False\<rparr>\<rparr>"
    by (rule served)
       (simp_all add: q2_def parseInt_zero parseInt_None or_num_def filteredProducts_def)
  ultimately show ?thesis
    by (simp add: route_GET_products lower_api respond_def q1_def q2_def)
qed

lemma parseInt_two: "parseInt (Some (QStr ''2'')) = Some 2"
  by (simp add: parseInt_def parseInt_string_def is_space_def digit_val_def digits_value_def Let_def)

text \<open>
  Claim C5 (pagination window). Let \<open>F\<close> be the list after the category and stock
  filters, and let \<open>page\<close> and \<open>limit\<close> be the numbers the handler reads from the query,
  both at least 1. Then the response has status 200, its products are exactly the
  elements of \<open>F\<close> at the indices from \<open>(page - 1) * limit\<close> up to, and without,
  \<open>page * limit\<close> (cut at the end of \<open>F\<close>), in the order of \<open>F\<close>, and the metadata is
  \<open>currentPage = page\<close>, \<open>totalPages\<close> the ceiling of \<open>length F / limit\<close>,
  \<open>totalProducts = length F\<close>, \<open>productsPerPage = limit\<close>,
  \<open>hasNextPage = (page * limit < length F)\<close> and \<open>hasPrevPage = (1 < page)\<close>. The
  window is taken from the filtered list, so filtering comes first. The ceiling is also
  given as an integer division.
\<close>

theorem pagination_window:
  assumes "filteredProducts js ps q = Inr F"
    and "page = or_num (parseInt (q ''page'')) 1" "limit = or_num (parseInt (q ''limit'')) 10"
    and "1 \<le> page" "1 \<le> limit"
  shows "get_products js ps q =
     Inr \<lparr>status = 200,
      json = ProductsBody
        (map (\<lambda>i. F ! i) [nat ((page - 1) * limit) ..< min (nat (page * limit)) (length F)])
        \<lparr>currentPage = page,
         totalPages = \<lceil>rat_of_nat (length F) / rat_of_int limit\<rceil>,
         totalProducts = length F,
         productsPerPage = limit,
         hasNextPage = (page * limit < int (length F)),
         hasPrevPage = (1 < page)\<rparr>\<rparr> \<and>
     \<lceil>rat_of_nat (length F) / rat_of_int limit\<rceil> = (int (length F) + limit - 1) div limit"
proof -
  have "0 \<le> (page - 1) * limit" using assms(4,5) by simp
  then have "nat ((page - 1) * limit) + nat limit = nat ((page - 1) * limit + limit)"
    using assms(5) by (simp add: nat_add_distrib)
  also have "(page - 1) * limit + limit = page * limit" by (simp add: algebra_simps)
  finally have k: "nat ((page - 1) * limit) + nat limit = nat (page * limit)" .
  have w: "take (nat limit) (drop (nat ((page - 1) * limit)) F) =
        map (\<lambda>i. F ! i) [nat ((page - 1) * limit) ..< min (nat (page * limit)) (length F)]"
    by (simp only: take_drop_nths k)
  have c: "\<lceil>rat_of_nat (length F) / rat_of_int limit\<rceil> = (int (length F) + limit - 1) div limit"
    using assms(5) by (intro ceiling_div) simp
  show ?thesis
    using get_products_served[OF assms]
    by (simp only: w c simp_thms)
qed

theorem pagination_window_witness:
  "get_products ascii_js products [''page'' \<mapsto> QStr ''2'', ''limit'' \<mapsto> QStr ''2''] =
     Inr \<lparr>status = 200,
      json = ProductsBody [products ! 2, products ! 3]
        \<lparr>currentPage = 2, totalPages = 3, totalProducts = 5, productsPerPage = 2,
         hasNextPage = True, hasPrevPage = True\<rparr>\<rparr>"
proof -
  define q :: query where "q = [''page'' \<mapsto> QStr ''2'', ''limit'' \<mapsto> QStr ''2'']"
  have f: "filteredProducts ascii_js products q = Inr products"
    by (simp add: q_def filteredProducts_def)
  have p: "2 = or_num (parseInt (q ''page'')) 1" "2 = or_num (parseInt (q ''limit'')) 10"
    by (simp_all add: q_def parseInt_two or_num_def)
  have o: "(1::int) \<le> 2" by simp
  note w = pagination_window[OF f p o o]
  have l: "length products = 5" by (simp add: products_def)
  have u: "[nat ((2 - 1) * 2) ..< min (nat (2 * 2)) 5] = [2, 3]"
    by (simp add: upt_rec)
  have c: "(int 5 + 2 - 1) div 2 = (3::int)" by simp
  have "get_products ascii_js products q =
     Inr \<lparr>status = 200,
      json = ProductsBody [products ! 2, products ! 3]
        \<lparr>currentPage = 2, totalPages = 3, totalProducts = 5, productsPerPage = 2,
         hasNextPage = True, hasPrevPage = True\<rparr>\<rparr>"
    using w[THEN conjunct1, unfolded w[THEN conjunct2]] unfolding l u c by simp
  then show ?thesis unfolding q_def .
qed

subsection \<open>Listing: the stock filter\<close>

text \<open>
  Claim C8 (stock filter). With no \<^verbatim>\<open>inStock\<close> parameter the list that reaches
  pagination is the output of the category filter alone: the stock filter changes
  nothing. With \<^verbatim>\<open>inStock\<close> present with value \<open>s\<close>, it is that list restricted to
  the products whose \<open>inStock\<close> field equals the truth value of \<open>s = QStr ''true''\<close>: the
  parameter means true exactly when it is the text "true", and false for any other value.
  An error thrown by the category filter passes through unchanged.
\<close>

theorem stock_filter:
  "filteredProducts js ps (q(''inStock'' := None)) =
     (case q ''category'' of
        None \<Rightarrow> Inr ps
      | Some (QStr c) \<Rightarrow>
          if c = [] then Inr ps
          else Inr (filter (\<lambda>p. toLowerCase js (category p) = toLowerCase js c) ps)
      | Some (QObj t) \<Rightarrow> if ps = [] then Inr [] else Inl (OtherError ''TypeError'')) \<and>
   filteredProducts js ps (q(''inStock'' \<mapsto> s)) =
     map_sum id (filter (\<lambda>p. inStock p = (s = QStr ''true'')))
       (filteredProducts js ps (q(''inStock'' := None)))"
  by (simp add: filteredProducts_def Let_def split: option.splits qval.splits)

theorem stock_filter_witness:
  "filteredProducts ascii_js products Map.empty = Inr products \<and>
   filteredProducts ascii_js products [''inStock'' \<mapsto> QStr ''true''] =
     Inr [products ! 0, products ! 1, products ! 3, products ! 4] \<and>
   filteredProducts ascii_js products [''inStock'' \<mapsto> QStr ''TRUE''] = Inr [products ! 2]"
  using stock_filter[of ascii_js products Map.empty "QStr ''true''"]
    stock_filter[of ascii_js products Map.empty "QStr ''TRUE''"]
  by (simp add: products_def)


subsection \<open>Route dispatch and the authentication gate\<close>

lemma route_GET_search:
  "req_method req = GET \<Longrightarrow>
   map ascii_toLowerCase (req_path req) = [''api'', ''products'', ''search''] \<Longrightarrow>
   route js ps uuid req = respond ps (search_products js ps (query req))"
  by (auto simp: route_def Let_def)

lemma route_GET_id:
  "req_method req = GET \<Longrightarrow> req_path req = [a, b, i] \<Longrightarrow>
   ascii_toLowerCase a = ''api'' \<Longrightarrow> ascii_toLowerCase b = ''products'' \<Longrightarrow>
   ascii_toLowerCase i \<noteq> ''search'' \<Longrightarrow>
   route js ps uuid req = finish ps (get_product ps i)"
  by (simp add: route_def Let_def)

lemma route_POST:
  "req_method req = POST \<Longrightarrow>
   map ascii_toLowerCase (req_path req) = [''api'', ''products''] \<Longrightarrow>
   route js ps uuid req =
     chain ps [authMiddleware (x_api_key req), validateProduct js (body req)]
       (post_product js ps uuid (body req))"
  by (auto simp: route_def Let_def)

lemma route_PUT:
  "req_method req = PUT \<Longrightarrow> length (req_path req) = 3 \<Longrightarrow>
   take 2 (map ascii_toLowerCase (req_path req)) = [''api'', ''products''] \<Longrightarrow>
   route js ps uuid req =
     chain ps [authMiddleware (x_api_key req), validateProduct js (body req)]
       (put_product js ps (req_path req ! 2) (body req))"
  by (auto simp: route_def Let_def)

lemma route_DELETE:
  "req_method req = DELETE \<Longrightarrow> length (req_path req) = 3 \<Longrightarrow>
   take 2 (map ascii_toLowerCase (req_path req)) = [''api'', ''products''] \<Longrightarrow>
   route js ps uuid req =
     chain ps [authMiddleware (x_api_key req)] (delete_product ps (req_path req ! 2))"
  by (auto simp: route_def Let_def)

lemma app_decoded: "\<not> body_rejected parsed \<Longrightarrow> app js ps uuid parsed req = route js ps uuid req"
  by (auto simp: app_def body_rejected_def split: option.splits)

lemma app_rejected:
  "body_rejected parsed \<Longrightarrow>
   app js ps uuid parsed req = (ps, \<lparr>status = 400, json = ErrorBody ''Invalid JSON format''\<rparr>)"
  by (auto simp: app_def body_rejected_def jsonErrorHandler_def split: option.splits if_splits)

lemma body_rejected_examples: "\<not> body_rejected None" "body_rejected (Some malformed_json)"
  by (simp_all add: body_rejected_def jsonErrorHandler_def malformed_json_def)

lemma authMiddleware_rejects:
  "k \<noteq> Some ''your-secret-api-key'' \<Longrightarrow>
   authMiddleware k =
     Some \<lparr>status = 401,
           json = ErrorBody
             ''Unauthorized: Invalid or missing API key. Include x-api-key header.''\<rparr>"
  by (simp add: authMiddleware_def)

lemma authMiddleware_accepts: "authMiddleware (Some ''your-secret-api-key'') = None"
  by (simp add: authMiddleware_def)

lemma route_unauthorized:
  assumes "x_api_key req \<noteq> Some ''your-secret-api-key''"
    and "(req_method req = POST \<and>
          map ascii_toLowerCase (req_path req) = [''api'', ''products'']) \<or>
         ((req_method req = PUT \<or> req_method req = DELETE) \<and> length (req_path req) = 3 \<and>
          take 2 (map ascii_toLowerCase (req_path req)) = [''api'', ''products''])"
  shows "route js ps uuid req =
     (ps, \<lparr>status = 401,
           json = ErrorBody
             ''Unauthorized: Invalid or missing API key. Include x-api-key header.''\<rparr>)"
proof -
  from assms(2) consider
      (post) "req_method req = POST"
        "map ascii_toLowerCase (req_path req) = [''api'', ''products'']"
    | (put) "req_method req = PUT" "length (req_path req) = 3"
        "take 2 (map ascii_toLowerCase (req_path req)) = [''api'', ''products'']"
    | (del) "req_method req = DELETE" "length (req_path req) = 3"
        "take 2 (map ascii_toLowerCase (req_path req)) = [''api'', ''products'']"
    by blast
  then show ?thesis
  proof cases
    case post
    then show ?thesis
      by (simp add: route_POST authMiddleware_rejects[OF assms(1)])
  next
    case put
    then show ?thesis
      by (simp add: route_PUT authMiddleware_rejects[OF assms(1)])
  next
    case del
    then show ?thesis
      by (simp add: route_DELETE authMiddleware_rejects[OF assms(1)])
  qed
qed

text \<open>
  Claim C3 (authentication gate), as amended: the gate answers when the body-decoding
  stage has not answered first. On the three protected routes, \<^verbatim>\<open>POST /api/products\<close>,
  \<^verbatim>\<open>PUT /api/products/:id\<close> and \<^verbatim>\<open>DELETE /api/products/:id\<close>, take a request whose
  \<^verbatim>\<open>x-api-key\<close> header is missing or differs from the secret. If the body parser raised
  no error, or one that the handler of lines 89 to 94 lets pass, the answer is status 401
  with the message of \<open>authMiddleware\<close>, which names the header \<^verbatim>\<open>x-api-key\<close>. If the
  body was rejected as malformed JSON, the answer is the 400 of that handler. In both
  cases the store after the request is the store before it.
\<close>

theorem unauthorized_write:
  assumes "x_api_key req \<noteq> Some ''your-secret-api-key''"
    and "(req_method req = POST \<and>
          map ascii_toLowerCase (req_path req) = [''api'', ''products'']) \<or>
         ((req_method req = PUT \<or> req_method req = DELETE) \<and> length (req_path req) = 3 \<and>
          take 2 (map ascii_toLowerCase (req_path req)) = [''api'', ''products''])"
  shows "fst (app js ps uuid parsed req) = ps \<and>
     (\<not> body_rejected parsed \<longrightarrow>
        app js ps uuid parsed req =
          (ps, \<lparr>status = 401,
                json = ErrorBody
                  ''Unauthorized: Invalid or missing API key. Include x-api-key header.''\<rparr>)) \<and>
     (body_rejected parsed \<longrightarrow>
        app js ps uuid parsed req =
          (ps, \<lparr>status = 400, json = ErrorBody ''Invalid JSON format''\<rparr>)) \<and>
     str_includes ''Unauthorized: Invalid or missing API key. Include x-api-key header.''
       ''x-api-key''"
proof (cases "body_rejected parsed")
  case True
  moreover have "str_includes
      ''Unauthorized: Invalid or missing API key. Include x-api-key header.'' ''x-api-key''"
    by simp
  ultimately show ?thesis
    by (simp add: app_rejected)
next
  case False
  moreover have "str_includes
      ''Unauthorized: Invalid or missing API key. Include x-api-key header.'' ''x-api-key''"
    by simp
  ultimately show ?thesis
    by (simp add: app_decoded route_unauthorized[OF assms])
qed

theorem unauthorized_write_witness:
  "app ascii_js products ''new-id'' None
     ((keyed_request POST [''api'', ''products''] (test_body ''Cat'' (Fin 10)))
        \<lparr>x_api_key := None\<rparr>) =
   (products,
    \<lparr>status = 401,
     json = ErrorBody ''Unauthorized: Invalid or missing API key. Include x-api-key header.''\<rparr>)"
  using unauthorized_write[of
     "(keyed_request POST [''api'', ''products''] (test_body ''Cat'' (Fin 10)))
        \<lparr>x_api_key := None\<rparr>" ascii_js products "''new-id''" None]
  by (simp add: keyed_request_def lower_api body_rejected_examples)

text \<open>
  The claim as first stated gives 401 for every such request. A \<^verbatim>\<open>POST /api/products\<close>
  without a key whose body is not JSON is answered by the handler of lines 89 to 94, which
  runs before \<open>authMiddleware\<close>: status 400.
\<close>

theorem unauthorized_write_counterexample:
  "app ascii_js products ''new-id'' (Some malformed_json)
     ((keyed_request POST [''api'', ''products''] Map.empty)\<lparr>x_api_key := None\<rparr>) =
   (products, \<lparr>status = 400, json = ErrorBody ''Invalid JSON format''\<rparr>)"
  by (simp add: app_rejected body_rejected_examples)

subsection \<open>Search\<close>

lemma search_products_string:
  \<open>search_products js ps qry =
     (case qry ''q'' of
        None \<Rightarrow>
          Inr \<lparr>status = 400, json = ErrorBody ''Search query parameter "q" is required''\<rparr>
      | Some (QObj u) \<Rightarrow> Inl (OtherError ''TypeError'')
      | Some (QStr t) \<Rightarrow>
          if t = []
          then Inr \<lparr>status = 400, json = ErrorBody ''Search query parameter "q" is required''\<rparr>
          else Inr \<lparr>status = 200,
                json = SearchBody t
                  (filter (\<lambda>p. is_substring (toLowerCase js t) (toLowerCase js (name p)) \<or>
                               is_substring (toLowerCase js t) (toLowerCase js (description p))) ps)
                  (length
                    (filter (\<lambda>p. is_substring (toLowerCase js t) (toLowerCase js (name p)) \<or>
                                 is_substring (toLowerCase js t) (toLowerCase js (description p))) ps))\<rparr>)\<close>
  by (simp add: search_products_def Let_def str_includes_iff split: option.splits qval.splits)

lemma search_not_product:
  "snd (respond ps (search_products js ps qry)) \<noteq> snd (finish ps (get_product ps i))"
  by (auto simp: search_products_def Let_def respond_def finish_def get_product_def
      errorHandler_def not_found_def split: option.splits qval.splits)

lemma fst_respond: "fst (respond ps res) = ps"
  by (simp add: respond_def split: sum.splits)

text \<open>
  Claim C7 (search), as amended: for a request that the body-decoding stage has not
  answered and whose \<^verbatim>\<open>q\<close> is absent or a single string. A \<^verbatim>\<open>GET\<close> on
  \<^verbatim>\<open>/api/products/search\<close> leaves the store as it is and is answered by the search
  handler: with \<^verbatim>\<open>q\<close> absent or empty, status 400 with the message that \<^verbatim>\<open>q\<close> is
  required; with a string \<open>t\<close> that is not empty, status 200 with the term as given, the
  stored products whose lower-cased name or description has the lower-cased term as a
  substring, in store order, and their number. Whatever \<^verbatim>\<open>q\<close> is, the answer is never
  the one the \<^verbatim>\<open>:id\<close> route would give for the third path segment, since the search route
  is registered first.
\<close>

theorem search_route:
  assumes \<open>req_method req = GET\<close>
    and \<open>map ascii_toLowerCase (req_path req) = [''api'', ''products'', ''search'']\<close>
    and \<open>\<not> body_rejected parsed\<close>
  shows \<open>fst (app js ps uuid parsed req) = ps \<and>
     (query req ''q'' = None \<or> query req ''q'' = Some (QStr []) \<longrightarrow>
        snd (app js ps uuid parsed req) =
          \<lparr>status = 400, json = ErrorBody ''Search query parameter "q" is required''\<rparr>) \<and>
     (\<forall>t. query req ''q'' = Some (QStr t) \<and> t \<noteq> [] \<longrightarrow>
        snd (app js ps uuid parsed req) =
          \<lparr>status = 200,
           json = SearchBody t
             (filter (\<lambda>p. is_substring (toLowerCase js t) (toLowerCase js (name p)) \<or>
                          is_substring (toLowerCase js t) (toLowerCase js (description p))) ps)
             (length
               (filter (\<lambda>p. is_substring (toLowerCase js t) (toLowerCase js (name p)) \<or>
                            is_substring (toLowerCase js t) (toLowerCase js (description p))) ps))\<rparr>) \<and>
     app js ps uuid parsed req \<noteq> finish ps (get_product ps (req_path req ! 2))\<close>
proof -
  have r: "app js ps uuid parsed req = respond ps (search_products js ps (query req))"
    using assms by (simp add: app_decoded route_GET_search)
  have "snd (app js ps uuid parsed req) \<noteq> snd (finish ps (get_product ps (req_path req ! 2)))"
    unfolding r by (rule search_not_product)
  then have n: "app js ps uuid parsed req \<noteq> finish ps (get_product ps (req_path req ! 2))"
    by metis
  have f: "fst (app js ps uuid parsed req) = ps"
    unfolding r by (rule fst_respond)
  show ?thesis
    using n f unfolding r search_products_string
    by (auto simp: respond_def)
qed

lemma read_request_simps:
  "req_method (read_request p q) = GET" "req_path (read_request p q) = p"
  "query (read_request p q) = q"
  by (simp_all add: read_request_def)

lemma ascii_js_simps:
  "trim ascii_js = ascii_trim" "toLowerCase ascii_js = ascii_toLowerCase"
  "to_double ascii_js = Fin"
  by (simp_all add: ascii_js_def)

theorem search_route_witness:
  "app ascii_js products [] None
     (read_request [''api'', ''products'', ''search''] [''q'' \<mapsto> QStr ''LAPTOP'']) =
   (products, \<lparr>status = 200, json = SearchBody ''LAPTOP'' [products ! 0] 1\<rparr>)"
proof -
  define req where
    "req = read_request [''api'', ''products'', ''search''] [''q'' \<mapsto> QStr ''LAPTOP'']"
  have m: "req_method req = GET"
    "map ascii_toLowerCase (req_path req) = [''api'', ''products'', ''search'']"
    "\<not> body_rejected None"
    by (simp_all add: req_def read_request_simps lower_api body_rejected_examples)
  have q: "query req ''q'' = Some (QStr ''LAPTOP'')" "''LAPTOP'' \<noteq> []"
    by (simp_all add: req_def read_request_simps)
  have l: "ascii_toLowerCase ''LAPTOP'' = ''laptop''"
    by code_simp
  have f: "filter (\<lambda>p. is_substring ''laptop'' (ascii_toLowerCase (name p)) \<or>
                       is_substring ''laptop'' (ascii_toLowerCase (description p))) products =
           [products ! 0]"
    unfolding str_includes_iff[symmetric] by code_simp
  note s = search_route[OF m, of ascii_js products "[]"]
  from s have "fst (app ascii_js products [] None req) = products"
    by blast
  moreover from s q have "snd (app ascii_js products [] None req) =
      \<lparr>status = 200, json = SearchBody ''LAPTOP'' [products ! 0] 1\<rparr>"
    by (simp add: ascii_js_simps l f)
  ultimately have "app ascii_js products [] None req =
      (products, \<lparr>status = 200, json = SearchBody ''LAPTOP'' [products ! 0] 1\<rparr>)"
    by (metis prod.collapse)
  then show ?thesis unfolding req_def .
qed

text \<open>
  The claim as first stated has two outcomes for every request, 400 for a missing \<^verbatim>\<open>q\<close>
  and the matches otherwise. A repeated parameter, \<^verbatim>\<open>?q=lap&q=top\<close>, reaches the handler
  as an array: \<^verbatim>\<open>q.toLowerCase()\<close> throws and \<open>errorHandler\<close> answers 500. And a
  request with a term whose body is not JSON is answered 400 before the routes.
\<close>

theorem search_route_counterexample:
  "app ascii_js products [] None
     (read_request [''api'', ''products'', ''search''] [''q'' \<mapsto> QObj ''lap,top'']) =
   (products,
    \<lparr>status = 500,
     json = ErrorMessageBody ''Internal Server Error''
              ''Something went wrong on the server''\<rparr>) \<and>
   app ascii_js products [] (Some malformed_json)
     (read_request [''api'', ''products'', ''search''] [''q'' \<mapsto> QStr ''laptop'']) =
   (products, \<lparr>status = 400, json = ErrorBody ''Invalid JSON format''\<rparr>)"
  by (simp add: app_rejected app_decoded body_rejected_examples route_GET_search
      read_request_simps lower_api search_products_def respond_def errorHandler_def)

subsection \<open>Facts about the example requests\<close>

lemma trims: "ascii_trim ''Test'' = ''Test''" "ascii_trim ''d'' = ''d''"
  "ascii_trim ''Cat'' = ''Cat''" "ascii_trim '' Cat '' = ''Cat''"
  "ascii_trim ''Desk'' = ''Desk''" "ascii_trim ''Oak desk'' = ''Oak desk''"
  "ascii_trim ''Furniture'' = ''Furniture''"
  by (simp_all add: ascii_trim_def is_space_def)

lemma lowers: "ascii_toLowerCase ''Cat'' = ''cat''" "ascii_toLowerCase '' Cat '' = '' cat ''"
  "ascii_toLowerCase ''Furniture'' = ''furniture''" "ascii_toLowerCase ''new-id'' = ''new-id''"
  by code_simp+

lemma keyed_request_simps:
  "req_method (keyed_request m p b) = m" "req_path (keyed_request m p b) = p"
  "x_api_key (keyed_request m p b) = Some ''your-secret-api-key''"
  "body (keyed_request m p b) = b"
  by (simp_all add: keyed_request_def)

lemma test_body_simps:
  "test_body c r ''name'' = Some (JStr ''Test'')"
  "test_body c r ''description'' = Some (JStr ''d'')"
  "test_body c r ''price'' = Some (JNum r)" "test_body c r ''category'' = Some (JStr c)"
  "test_body c r ''inStock'' = Some (JBool True)"
  by (simp_all add: test_body_def)

lemma positive_not_le: "num_less (Fin 0) r \<Longrightarrow> \<not> num_le r (Fin 0)"
  by (cases r) (simp_all add: num_le_def)

lemma test_body_valid:
  "c \<noteq> [] \<Longrightarrow> ascii_trim c \<noteq> [] \<Longrightarrow> num_less (Fin 0) r \<Longrightarrow>
   validateProduct ascii_js (test_body c r) = None"
  by (auto simp: validateProduct_None validation_errors_Nil test_body_simps trims
      ascii_js_simps positive_not_le)

lemma fresh_new_id: "''new-id'' \<notin> pid ` set products"
  by (simp add: products_def)

lemma body_without_inStock_simps:
  "body_without_inStock ''name'' = Some (JStr ''Desk'')"
  "body_without_inStock ''description'' = Some (JStr ''Oak desk'')"
  "body_without_inStock ''price'' = Some (JNum (Fin 250))"
  "body_without_inStock ''category'' = Some (JStr ''Furniture'')"
  "body_without_inStock ''inStock'' = None"
  by (simp_all add: body_without_inStock_def)

lemma findIndex_products:
  "findIndex (\<lambda>p. pid p = ''1'') products = Some 0"
  "findIndex (\<lambda>p. pid p = ''3'') products = Some 2"
  by (simp_all add: products_def)

subsection \<open>Creating a product\<close>

lemma chain_pass2: "chain ps [None, None] h = finish ps h"
  by simp

lemma post_product_valid:
  assumes "b ''name'' = Some (JStr n)" "b ''description'' = Some (JStr d)"
    "b ''price'' = Some (JNum r)" "b ''category'' = Some (JStr c)"
    and "b ''inStock'' = None \<or> (\<exists>v. b ''inStock'' = Some (JBool v))"
    and "P = \<lparr>pid = uuid, name = trim js n, description = trim js d, price = r,
              category = toLowerCase js (trim js c),
              inStock = (b ''inStock'' \<noteq> Some (JBool False))\<rparr>"
  shows "post_product js ps uuid b =
     Inr (ps @ [P], \<lparr>status = 201, json = MessageBody ''Product created successfully'' P\<rparr>)"
  using assms(5) unfolding post_product_def assms(1-4,6) Let_def
  by (auto)

lemma route_POST_valid:
  assumes "req_method req = POST"
    and "map ascii_toLowerCase (req_path req) = [''api'', ''products'']"
    and "x_api_key req = Some ''your-secret-api-key''"
    and "validateProduct js (body req) = None"
  shows "\<exists>n d r c. body req ''name'' = Some (JStr n) \<and> body req ''description'' = Some (JStr d) \<and>
     body req ''price'' = Some (JNum r) \<and> body req ''category'' = Some (JStr c) \<and>
     route js ps uuid req =
       (ps @ [\<lparr>pid = uuid, name = trim js n, description = trim js d, price = r,
               category = toLowerCase js (trim js c),
               inStock = (body req ''inStock'' \<noteq> Some (JBool False))\<rparr>],
        \<lparr>status = 201,
         json = MessageBody ''Product created successfully''
                  \<lparr>pid = uuid, name = trim js n, description = trim js d, price = r,
                   category = toLowerCase js (trim js c),
                   inStock = (body req ''inStock'' \<noteq> Some (JBool False))\<rparr>\<rparr>)"
proof -
  from assms(4) have "validation_errors js (body req) = []"
    by (simp only: validateProduct_None)
  then obtain n d r c where s: "body req ''name'' = Some (JStr n)"
      "body req ''description'' = Some (JStr d)" "body req ''price'' = Some (JNum r)"
      "body req ''category'' = Some (JStr c)"
      and t: "body req ''inStock'' = None \<or> (\<exists>v. body req ''inStock'' = Some (JBool v))"
    unfolding validation_errors_Nil by blast
  have "route js ps uuid req = finish ps (post_product js ps uuid (body req))"
    by (simp add: route_POST[OF assms(1,2)] assms(3,4) authMiddleware_accepts)
  also have "\<dots> = (ps @ [\<lparr>pid = uuid, name = trim js n, description = trim js d, price = r,
               category = toLowerCase js (trim js c),
               inStock = (body req ''inStock'' \<noteq> Some (JBool False))\<rparr>],
        \<lparr>status = 201,
         json = MessageBody ''Product created successfully''
                  \<lparr>pid = uuid, name = trim js n, description = trim js d, price = r,
                   category = toLowerCase js (trim js c),
                   inStock = (body req ''inStock'' \<noteq> Some (JBool False))\<rparr>\<rparr>)"
    by (simp add: post_product_valid[OF s t refl] finish_def)
  finally show ?thesis using s by blast
qed

lemma find_fresh:
  "i \<notin> pid ` set ps \<Longrightarrow> pid P = i \<Longrightarrow> find (\<lambda>p. pid p = i) (ps @ [P]) = Some P"
  by (induction ps) auto

text \<open>
  Claim C10 (default of \<^verbatim>\<open>inStock\<close> on create). A \<^verbatim>\<open>POST /api/products\<close> with the
  right key and a body that passes \<open>validateProduct\<close> appends one product and answers 201.
  The stored \<open>inStock\<close> is true when the body has no \<^verbatim>\<open>inStock\<close> property, and is the
  submitted boolean when it has one: an explicit \<^verbatim>\<open>false\<close> is stored as false.
\<close>

theorem create_inStock_default:
  assumes "req_method req = POST"
    and "map ascii_toLowerCase (req_path req) = [''api'', ''products'']"
    and "x_api_key req = Some ''your-secret-api-key''"
    and "validateProduct js (body req) = None"
  shows "\<exists>p. route js ps uuid req =
           (ps @ [p], \<lparr>status = 201, json = MessageBody ''Product created successfully'' p\<rparr>) \<and>
         (body req ''inStock'' = None \<longrightarrow> inStock p) \<and>
         (\<forall>v. body req ''inStock'' = Some (JBool v) \<longrightarrow> inStock p = v)"
proof -
  from route_POST_valid[OF assms, of ps uuid] obtain n d r c where
    "route js ps uuid req =
       (ps @ [\<lparr>pid = uuid, name = trim js n, description = trim js d, price = r,
               category = toLowerCase js (trim js c),
               inStock = (body req ''inStock'' \<noteq> Some (JBool False))\<rparr>],
        \<lparr>status = 201,
         json = MessageBody ''Product created successfully''
                  \<lparr>pid = uuid, name = trim js n, description = trim js d, price = r,
                   category = toLowerCase js (trim js c),
                   inStock = (body req ''inStock'' \<noteq> Some (JBool False))\<rparr>\<rparr>)"
    by blast
  then show ?thesis by auto
qed

theorem create_inStock_default_witness:
  "\<exists>p. route ascii_js products ''new-id''
          \<lparr>req_method = POST, req_path = [''api'', ''products''],
           originalUrl = ''/api/products'', query = Map.empty,
           x_api_key = Some ''your-secret-api-key'',
           body = [''name'' \<mapsto> JStr ''Test'', ''description'' \<mapsto> JStr ''d'',
                   ''price'' \<mapsto> JNum (Fin 10), ''category'' \<mapsto> JStr ''Cat'',
                   ''inStock'' \<mapsto> JBool False]\<rparr> =
         (products @ [p],
          \<lparr>status = 201, json = MessageBody ''Product created successfully'' p\<rparr>) \<and>
       \<not> inStock p"
proof -
  define req where "req =
          \<lparr>req_method = POST, req_path = [''api'', ''products''],
           originalUrl = ''/api/products'', query = Map.empty,
           x_api_key = Some ''your-secret-api-key'',
           body = [''name'' \<mapsto> JStr ''Test'', ''description'' \<mapsto> JStr ''d'',
                   ''price'' \<mapsto> JNum (Fin 10), ''category'' \<mapsto> JStr ''Cat'',
                   ''inStock'' \<mapsto> JBool False]\<rparr>"
  have t: "ascii_trim ''Test'' \<noteq> []" "ascii_trim ''d'' \<noteq> []" "ascii_trim ''Cat'' \<noteq> []"
    "\<not> num_le (Fin 10) (Fin 0)"
    by (simp_all add: ascii_trim_def is_space_def num_le_def)
  have h: "req_method req = POST"
    "map ascii_toLowerCase (req_path req) = [''api'', ''products'']"
    "x_api_key req = Some ''your-secret-api-key''"
    "validateProduct ascii_js (body req) = None"
    by (auto simp: req_def lower_api validateProduct_None validation_errors_Nil t ascii_js_simps)
  have i: "body req ''inStock'' = Some (JBool False)"
    by (simp add: req_def)
  from create_inStock_default[OF h, of products "''new-id''"] obtain p where
    p: "route ascii_js products ''new-id'' req =
         (products @ [p],
          \<lparr>status = 201, json = MessageBody ''Product created successfully'' p\<rparr>)"
       "\<forall>v. body req ''inStock'' = Some (JBool v) \<longrightarrow> inStock p = v"
    by blast
  from p(2) i have "\<not> inStock p" by blast
  with p(1) show ?thesis unfolding req_def by blast
qed

lemma fetch_fresh:
  assumes "req_method g = GET" "req_path g = [''api'', ''products'', uuid]"
    and "ascii_toLowerCase uuid \<noteq> ''search''"
    and "uuid \<notin> pid ` set ps" "pid P = uuid"
  shows "route js (ps @ [P]) uuid' g = (ps @ [P], \<lparr>status = 200, json = ProductBody P\<rparr>)"
proof -
  have "find (\<lambda>p. pid p = uuid) (ps @ [P]) = Some P"
    using assms(4,5) by (intro find_fresh)
  then have "finish (ps @ [P]) (get_product (ps @ [P]) uuid) =
               (ps @ [P], \<lparr>status = 200, json = ProductBody P\<rparr>)"
    by (simp add: get_product_def finish_def)
  then show ?thesis
    using route_GET_id[OF assms(1,2) lower_api(1,2) assms(3)] by simp
qed

lemma create_fetch_example:
  assumes "c \<noteq> []" "ascii_trim c \<noteq> []" "num_less (Fin 0) r"
    and "P = \<lparr>pid = ''new-id'', name = ''Test'', description = ''d'', price = r,
              category = ascii_toLowerCase (ascii_trim c), inStock = True\<rparr>"
  shows "app ascii_js
           (fst (app ascii_js products ''new-id'' None
                   (keyed_request POST [''api'', ''products''] (test_body c r))))
           [] None (read_request [''api'', ''products'', ''new-id''] Map.empty) =
         (products @ [P], \<lparr>status = 200, json = ProductBody P\<rparr>)"
proof -
  have v: "validateProduct ascii_js (test_body c r) = None"
    using assms(1-3) by (rule test_body_valid)
  have "route ascii_js products ''new-id''
          (keyed_request POST [''api'', ''products''] (test_body c r)) =
      finish products (post_product ascii_js products ''new-id'' (test_body c r))"
    by (simp add: route_POST keyed_request_simps lower_api authMiddleware_accepts v)
  also have "\<dots> = (products @ [P],
       \<lparr>status = 201, json = MessageBody ''Product created successfully'' P\<rparr>)"
    by (simp add: post_product_def Let_def test_body_simps finish_def trims assms(4)
          ascii_js_simps)
  finally have c: "fst (app ascii_js products ''new-id'' None
       (keyed_request POST [''api'', ''products''] (test_body c r))) = products @ [P]"
    by (simp add: app_decoded body_rejected_examples)
  have "route ascii_js (products @ [P]) []
          (read_request [''api'', ''products'', ''new-id''] Map.empty) =
      (products @ [P], \<lparr>status = 200, json = ProductBody P\<rparr>)"
    by (rule fetch_fresh[OF _ _ _ fresh_new_id])
       (simp_all add: read_request_simps lowers assms(4))
  then show ?thesis
    unfolding c by (simp add: app_decoded body_rejected_examples)
qed

text \<open>
  Claim C6 (create, then fetch), as amended: the price is a finite number, and the category
  that comes back is the submitted one trimmed and lower-cased. Take a
  \<^verbatim>\<open>POST /api/products\<close> with the right key and a body that passes \<open>validateProduct\<close>,
  whose price is the finite number \<open>x\<close>, where the new identifier is not yet in the store
  (and is not the word "search", which the search route takes). Then the product \<open>P\<close>
  built from the body (name and description trimmed, price as sent, category trimmed and
  lower-cased, \<open>inStock\<close> as sent or true when absent) is appended, a following
  \<^verbatim>\<open>GET /api/products/:id\<close> with that identifier answers 200 with \<open>P\<close>, and the price is
  written into the response as the number \<open>x\<close>. Both requests are ones that the
  body-decoding stage has not answered.
\<close>

theorem create_then_fetch:
  assumes "req_method req = POST"
    and "map ascii_toLowerCase (req_path req) = [''api'', ''products'']"
    and "x_api_key req = Some ''your-secret-api-key''"
    and "validateProduct js (body req) = None"
    and "body req ''name'' = Some (JStr n)" "body req ''description'' = Some (JStr d)"
      "body req ''price'' = Some (JNum (Fin x))" "body req ''category'' = Some (JStr c)"
    and "uuid \<notin> pid ` set ps" "ascii_toLowerCase uuid \<noteq> ''search''"
    and "req_method g = GET" "req_path g = [''api'', ''products'', uuid]"
    and "\<not> body_rejected parsed" "\<not> body_rejected parsed'"
    and "P = \<lparr>pid = uuid, name = trim js n, description = trim js d, price = Fin x,
              category = toLowerCase js (trim js c),
              inStock = (body req ''inStock'' \<noteq> Some (JBool False))\<rparr>"
  shows "app js ps uuid parsed req =
           (ps @ [P], \<lparr>status = 201, json = MessageBody ''Product created successfully'' P\<rparr>) \<and>
         app js (ps @ [P]) uuid' parsed' g =
           (ps @ [P], \<lparr>status = 200, json = ProductBody P\<rparr>) \<and>
         json_number (price P) = Some x"
proof (intro conjI)
  from route_POST_valid[OF assms(1-4), of ps uuid]
  show "app js ps uuid parsed req =
           (ps @ [P], \<lparr>status = 201, json = MessageBody ''Product created successfully'' P\<rparr>)"
    unfolding assms(5-8) assms(15) app_decoded[OF assms(13)] by simp
next
  have "pid P = uuid" by (simp add: assms(15))
  from fetch_fresh[OF assms(11,12,10,9) this]
  show "app js (ps @ [P]) uuid' parsed' g =
           (ps @ [P], \<lparr>status = 200, json = ProductBody P\<rparr>)"
    unfolding app_decoded[OF assms(14)] .
next
  show "json_number (price P) = Some x"
    by (simp add: assms(15) json_number_def)
qed

theorem create_then_fetch_witness:
  "app ascii_js products ''new-id'' None
     (keyed_request POST [''api'', ''products''] (test_body ''Cat'' (Fin 10))) =
     (products @ [\<lparr>pid = ''new-id'', name = ''Test'', description = ''d'', price = Fin 10,
                    category = ''cat'', inStock = True\<rparr>],
      \<lparr>status = 201,
       json = MessageBody ''Product created successfully''
                \<lparr>pid = ''new-id'', name = ''Test'', description = ''d'', price = Fin 10,
                 category = ''cat'', inStock = True\<rparr>\<rparr>) \<and>
   app ascii_js (products @ [\<lparr>pid = ''new-id'', name = ''Test'', description = ''d'',
                         price = Fin 10, category = ''cat'', inStock = True\<rparr>]) [] None
         (read_request [''api'', ''products'', ''new-id''] Map.empty) =
     (products @ [\<lparr>pid = ''new-id'', name = ''Test'', description = ''d'', price = Fin 10,
                    category = ''cat'', inStock = True\<rparr>],
      \<lparr>status = 200,
       json = ProductBody \<lparr>pid = ''new-id'', name = ''Test'', description = ''d'',
                           price = Fin 10, category = ''cat'', inStock = True\<rparr>\<rparr>) \<and>
   json_number (price \<lparr>pid = ''new-id'', name = ''Test'', description = ''d'',
                       price = Fin 10, category = ''cat'', inStock = True\<rparr>) = Some 10"
proof -
  have p: "num_less (Fin 0) (Fin 10)" by simp
  have v: "validateProduct ascii_js
      (body (keyed_request POST [''api'', ''products''] (test_body ''Cat'' (Fin 10)))) = None"
    by (simp add: keyed_request_simps test_body_valid trims p)
  have n: "ascii_toLowerCase ''new-id'' \<noteq> ''search''"
    by (simp add: lowers)
  have P: "\<lparr>pid = ''new-id'', name = ''Test'', description = ''d'', price = Fin 10,
            category = ''cat'', inStock = True\<rparr> =
           \<lparr>pid = ''new-id'', name = trim ascii_js ''Test'', description = trim ascii_js ''d'',
            price = Fin 10, category = toLowerCase ascii_js (trim ascii_js ''Cat''),
            inStock = (body (keyed_request POST [''api'', ''products'']
                               (test_body ''Cat'' (Fin 10))) ''inStock''
                         \<noteq> Some (JBool False))\<rparr>"
    by (simp add: trims lowers keyed_request_simps test_body_simps ascii_js_simps)
  show ?thesis
    by (rule create_then_fetch[OF _ _ _ v _ _ _ _ fresh_new_id n _ _ _ _ P])
       (simp_all add: keyed_request_simps read_request_simps test_body_simps lower_api
          body_rejected_examples)
qed

text \<open>
  The claim as first stated has the category merely lower-cased, and the same price for
  every valid body. With the category \<open>'' Cat ''\<close>, which \<open>validateProduct\<close> accepts, the
  product that comes back has the category \<open>''cat''\<close>, which is not the lower-cased text
  \<open>'' cat ''\<close>. And a body whose price is the JSON number \<^verbatim>\<open>1e400\<close> is decoded with the
  price \<^verbatim>\<open>Infinity\<close> and passes \<open>validateProduct\<close>; the product is stored with that
  price, which the response to the fetch writes as \<^verbatim>\<open>null\<close>.
\<close>

theorem create_then_fetch_counterexample:
  "validateProduct ascii_js (test_body '' Cat '' (Fin 10)) = None \<and>
   snd (app ascii_js
          (fst (app ascii_js products ''new-id'' None
                  (keyed_request POST [''api'', ''products''] (test_body '' Cat '' (Fin 10)))))
          [] None (read_request [''api'', ''products'', ''new-id''] Map.empty)) =
     \<lparr>status = 200,
      json = ProductBody \<lparr>pid = ''new-id'', name = ''Test'', description = ''d'',
                          price = Fin 10, category = ''cat'', inStock = True\<rparr>\<rparr> \<and>
   toLowerCase ascii_js '' Cat '' \<noteq> ''cat'' \<and>
   validateProduct ascii_js (test_body ''Cat'' PosInf) = None \<and>
   snd (app ascii_js
          (fst (app ascii_js products ''new-id'' None
                  (keyed_request POST [''api'', ''products''] (test_body ''Cat'' PosInf))))
          [] None (read_request [''api'', ''products'', ''new-id''] Map.empty)) =
     \<lparr>status = 200,
      json = ProductBody \<lparr>pid = ''new-id'', name = ''Test'', description = ''d'',
                          price = PosInf, category = ''cat'', inStock = True\<rparr>\<rparr> \<and>
   json_number PosInf = None"
proof -
  have a: "'' Cat '' \<noteq> []" "ascii_trim '' Cat '' \<noteq> []" "num_less (Fin 0) (Fin 10)"
    and b: "''Cat'' \<noteq> []" "ascii_trim ''Cat'' \<noteq> []" "num_less (Fin 0) PosInf"
    by (simp_all add: trims)
  have "toLowerCase ascii_js '' Cat '' \<noteq> ''cat''"
    by (simp add: ascii_js_simps lowers)
  moreover have "json_number PosInf = None"
    by (simp add: json_number_def)
  ultimately show ?thesis
    by (simp add: test_body_valid[OF a] test_body_valid[OF b]
          create_fetch_example[OF a refl] create_fetch_example[OF b refl] trims lowers)
qed


subsection \<open>Updating a product\<close>

lemma put_product_valid:
  assumes "findIndex (\<lambda>p. pid p = i) ps = Some k"
    and "b ''name'' = Some (JStr n)" "b ''description'' = Some (JStr d)"
    "b ''price'' = Some (JNum r)" "b ''category'' = Some (JStr c)"
    and "b ''inStock'' = None \<or> (\<exists>v. b ''inStock'' = Some (JBool v))"
    and "U = (ps ! k)\<lparr>name := trim js n, description := trim js d, price := r,
                       category := toLowerCase js (trim js c),
                       inStock := (b ''inStock'' = Some (JBool True))\<rparr>"
  shows "put_product js ps i b =
     Inr (ps[k := U], \<lparr>status = 200, json = MessageBody ''Product updated successfully'' U\<rparr>)"
  using assms(6) unfolding put_product_def assms(1-5,7) Let_def
  by (auto)

lemma route_PUT_valid:
  assumes "req_method req = PUT" "length (req_path req) = 3"
    and "take 2 (map ascii_toLowerCase (req_path req)) = [''api'', ''products'']"
    and "x_api_key req = Some ''your-secret-api-key''"
    and "validation_errors js (body req) = []"
    and "findIndex (\<lambda>p. pid p = req_path req ! 2) ps = Some k"
  shows "\<exists>n d r c. body req ''name'' = Some (JStr n) \<and> body req ''description'' = Some (JStr d) \<and>
     body req ''price'' = Some (JNum r) \<and> body req ''category'' = Some (JStr c) \<and>
     route js ps uuid req =
       (ps[k := (ps ! k)\<lparr>name := trim js n, description := trim js d, price := r,
                          category := toLowerCase js (trim js c),
                          inStock := (body req ''inStock'' = Some (JBool True))\<rparr>],
        \<lparr>status = 200,
         json = MessageBody ''Product updated successfully''
                  ((ps ! k)\<lparr>name := trim js n, description := trim js d, price := r,
                             category := toLowerCase js (trim js c),
                             inStock := (body req ''inStock'' = Some (JBool True))\<rparr>)\<rparr>)"
proof -
  from assms(5) obtain n d r c where s: "body req ''name'' = Some (JStr n)"
      "body req ''description'' = Some (JStr d)" "body req ''price'' = Some (JNum r)"
      "body req ''category'' = Some (JStr c)"
      and t: "body req ''inStock'' = None \<or> (\<exists>v. body req ''inStock'' = Some (JBool v))"
    unfolding validation_errors_Nil by blast
  have v: "validateProduct js (body req) = None"
    using assms(5) by (simp only: validateProduct_None)
  have "route js ps uuid req = finish ps (put_product js ps (req_path req ! 2) (body req))"
    by (simp add: route_PUT[OF assms(1-3)] assms(4) v authMiddleware_accepts)
  then have "route js ps uuid req =
       (ps[k := (ps ! k)\<lparr>name := trim js n, description := trim js d, price := r,
                          category := toLowerCase js (trim js c),
                          inStock := (body req ''inStock'' = Some (JBool True))\<rparr>],
        \<lparr>status = 200,
         json = MessageBody ''Product updated successfully''
                  ((ps ! k)\<lparr>name := trim js n, description := trim js d, price := r,
                             category := toLowerCase js (trim js c),
                             inStock := (body req ''inStock'' = Some (JBool True))\<rparr>)\<rparr>)"
    by (simp add: put_product_valid[OF assms(6) s t refl] finish_def)
  then show ?thesis using s by blast
qed

lemma route_PUT_status_200:
  assumes "req_method req = PUT" "length (req_path req) = 3"
    and "take 2 (map ascii_toLowerCase (req_path req)) = [''api'', ''products'']"
    and "route js ps uuid req = (ps', resp)" "status resp = 200"
  shows "x_api_key req = Some ''your-secret-api-key'' \<and> validation_errors js (body req) = [] \<and>
         (\<exists>k. findIndex (\<lambda>p. pid p = req_path req ! 2) ps = Some k)"
proof -
  note r = route_PUT[OF assms(1-3), of js ps uuid]
  have a: "x_api_key req = Some ''your-secret-api-key''"
  proof (rule ccontr)
    assume "x_api_key req \<noteq> Some ''your-secret-api-key''"
    from authMiddleware_rejects[OF this] r assms(4) have "status resp = 401" by auto
    with assms(5) show False by simp
  qed
  have b: "validation_errors js (body req) = []"
  proof (rule ccontr)
    assume "validation_errors js (body req) \<noteq> []"
    then have "validateProduct js (body req) =
        Some \<lparr>status = 400, json = ValidationBody ''Validation failed'' (validation_errors js (body req))\<rparr>"
      by (simp add: validateProduct_def Let_def)
    with r assms(4) a have "status resp = 400" by (auto simp: authMiddleware_accepts)
    with assms(5) show False by simp
  qed
  have c: "\<exists>k. findIndex (\<lambda>p. pid p = req_path req ! 2) ps = Some k"
  proof (rule ccontr)
    assume "\<nexists>k. findIndex (\<lambda>p. pid p = req_path req ! 2) ps = Some k"
    then have "findIndex (\<lambda>p. pid p = req_path req ! 2) ps = None" by simp
    then have "put_product js ps (req_path req ! 2) (body req) = Inl (not_found (req_path req ! 2))"
      by (simp add: put_product_def)
    moreover have "validateProduct js (body req) = None"
      using b by (simp only: validateProduct_None)
    ultimately have "route js ps uuid req = (ps, errorHandler (not_found (req_path req ! 2)))"
      using r a by (simp add: authMiddleware_accepts finish_def)
    with assms(4) have "status resp = 404"
      by (auto simp: errorHandler_def not_found_def)
    with assms(5) show False by simp
  qed
  from a b c show ?thesis by blast
qed

text \<open>
  Claim C9 (frame of update). If a \<^verbatim>\<open>PUT /api/products/:id\<close> is answered with status
  200, then the identifier is that of the record at some index \<open>k\<close> of the store, the body
  has string \<^verbatim>\<open>name\<close>, \<^verbatim>\<open>description\<close>, \<^verbatim>\<open>category\<close> and a numeric
  \<^verbatim>\<open>price\<close>, and the new store is the old one with index \<open>k\<close> replaced by the record
  that keeps the old \<open>pid\<close> and takes its five other fields from the body. The response
  carries that record, the store keeps its length, and every other index holds the record
  it held before.
\<close>

theorem put_frame:
  assumes "req_method req = PUT" "length (req_path req) = 3"
    and "take 2 (map ascii_toLowerCase (req_path req)) = [''api'', ''products'']"
    and "route js ps uuid req = (ps', resp)" "status resp = 200"
  shows "\<exists>k n d r c.
     k < length ps \<and> pid (ps ! k) = req_path req ! 2 \<and>
     body req ''name'' = Some (JStr n) \<and> body req ''description'' = Some (JStr d) \<and>
     body req ''price'' = Some (JNum r) \<and> body req ''category'' = Some (JStr c) \<and>
     ps' = ps[k := \<lparr>pid = pid (ps ! k), name = trim js n, description = trim js d, price = r,
                    category = toLowerCase js (trim js c),
                    inStock = (body req ''inStock'' = Some (JBool True))\<rparr>] \<and>
     resp = \<lparr>status = 200, json = MessageBody ''Product updated successfully'' (ps' ! k)\<rparr> \<and>
     length ps' = length ps \<and>
     (\<forall>j<length ps. j \<noteq> k \<longrightarrow> ps' ! j = ps ! j)"
proof -
  from route_PUT_status_200[OF assms] obtain k where
    a: "x_api_key req = Some ''your-secret-api-key''" "validation_errors js (body req) = []"
    and k: "findIndex (\<lambda>p. pid p = req_path req ! 2) ps = Some k"
    by blast
  from findIndex_Some[OF k] have kl: "k < length ps" and kp: "pid (ps ! k) = req_path req ! 2"
    by simp_all
  from route_PUT_valid[OF assms(1-3) a k, of uuid] obtain n d r c where
    s: "body req ''name'' = Some (JStr n)" "body req ''description'' = Some (JStr d)"
       "body req ''price'' = Some (JNum r)" "body req ''category'' = Some (JStr c)"
    and r: "route js ps uuid req =
       (ps[k := (ps ! k)\<lparr>name := trim js n, description := trim js d, price := r,
                          category := toLowerCase js (trim js c),
                          inStock := (body req ''inStock'' = Some (JBool True))\<rparr>],
        \<lparr>status = 200,
         json = MessageBody ''Product updated successfully''
                  ((ps ! k)\<lparr>name := trim js n, description := trim js d, price := r,
                             category := toLowerCase js (trim js c),
                             inStock := (body req ''inStock'' = Some (JBool True))\<rparr>)\<rparr>)"
    by blast
  define U where "U = \<lparr>pid = pid (ps ! k), name = trim js n, description = trim js d, price = r,
                    category = toLowerCase js (trim js c),
                    inStock = (body req ''inStock'' = Some (JBool True))\<rparr>"
  have u: "(ps ! k)\<lparr>name := trim js n, description := trim js d, price := r,
                          category := toLowerCase js (trim js c),
                          inStock := (body req ''inStock'' = Some (JBool True))\<rparr> = U"
    by (simp add: U_def)
  from r assms(4) have e: "ps' = ps[k := U]"
    "resp = \<lparr>status = 200, json = MessageBody ''Product updated successfully'' U\<rparr>"
    unfolding u by simp_all
  have "ps' ! k = U" using e(1) kl by simp
  with e have "resp = \<lparr>status = 200, json = MessageBody ''Product updated successfully'' (ps' ! k)\<rparr>"
    by simp
  moreover have "length ps' = length ps" using e(1) by simp
  moreover have "\<forall>j<length ps. j \<noteq> k \<longrightarrow> ps' ! j = ps ! j" using e(1) by simp
  ultimately show ?thesis
    using kl kp s e(1) unfolding U_def by blast
qed

theorem put_frame_witness:
  "status (snd (route ascii_js products []
      (keyed_request PUT [''api'', ''products'', ''3''] (test_body ''Cat'' (Fin 10))))) = 200 \<and>
   fst (route ascii_js products []
      (keyed_request PUT [''api'', ''products'', ''3''] (test_body ''Cat'' (Fin 10)))) =
     products[2 := \<lparr>pid = ''3'', name = ''Test'', description = ''d'', price = Fin 10,
                     category = ''cat'', inStock = True\<rparr>] \<and>
   map (\<lambda>j. fst (route ascii_js products []
           (keyed_request PUT [''api'', ''products'', ''3''] (test_body ''Cat'' (Fin 10)))) ! j)
       [0, 1, 3, 4] =
     map (\<lambda>j. products ! j) [0, 1, 3, 4]"
proof -
  define req where "req = keyed_request PUT [''api'', ''products'', ''3''] (test_body ''Cat'' (Fin 10))"
  have h: "req_method req = PUT" "length (req_path req) = 3"
    "take 2 (map ascii_toLowerCase (req_path req)) = [''api'', ''products'']"
    by (simp_all add: req_def keyed_request_simps lower_api)
  have p: "num_less (Fin 0) (Fin 10)" by simp
  have a: "x_api_key req = Some ''your-secret-api-key''"
    "validation_errors ascii_js (body req) = []"
    "findIndex (\<lambda>p. pid p = req_path req ! 2) products = Some 2"
    using test_body_valid[of "''Cat''" "Fin 10"]
    by (simp_all add: req_def keyed_request_simps findIndex_products validateProduct_None
          trims p)
  from route_PUT_valid[OF h a, of "[]"] have st: "status (snd (route ascii_js products [] req)) = 200"
    by auto
  have p: "route ascii_js products [] req = (fst (route ascii_js products [] req), snd (route ascii_js products [] req))"
    by simp
  from put_frame[OF h p st] obtain k n d r c where
    k: "k < length products" "pid (products ! k) = req_path req ! 2"
    and b: "body req ''name'' = Some (JStr n)" "body req ''description'' = Some (JStr d)"
      "body req ''price'' = Some (JNum r)" "body req ''category'' = Some (JStr c)"
    and u: "fst (route ascii_js products [] req) =
      products[k := \<lparr>pid = pid (products ! k), name = trim ascii_js n,
                    description = trim ascii_js d, price = r,
                    category = toLowerCase ascii_js (trim ascii_js c),
                    inStock = (body req ''inStock'' = Some (JBool True))\<rparr>]"
    and fr: "\<forall>j<length products. j \<noteq> k \<longrightarrow> fst (route ascii_js products [] req) ! j = products ! j"
    by blast
  from k have k2: "k = 2"
    by (auto simp: req_def keyed_request_simps products_def nth_Cons less_Suc_eq split: nat.splits)
  from b have v: "n = ''Test''" "d = ''d''" "r = Fin 10" "c = ''Cat''"
    by (simp_all add: req_def keyed_request_simps test_body_simps)
  have l: "length products = 5" by (simp add: products_def)
  have i: "body req ''inStock'' = Some (JBool True)" "pid (products ! 2) = ''3''"
    by (simp_all add: req_def keyed_request_simps test_body_simps products_def)
  from u fr st show ?thesis
    unfolding k2 v l ascii_js_simps trims lowers i by (simp add: req_def)
qed

text \<open>
  Claim C2 (\<^verbatim>\<open>inStock\<close> on update), as amended: \<^verbatim>\<open>inStock\<close> is optional on
  \<^verbatim>\<open>PUT /api/products/:id\<close>. A body without \<^verbatim>\<open>inStock\<close> whose name, description
  and category are strings that are neither empty nor blank and whose price is a positive
  number passes
  \<open>validateProduct\<close>; with the right key and an identifier found at index \<open>k\<close>, the
  update is answered with status 200 and the record at \<open>k\<close> is replaced by one with name,
  description, price and category taken from the body. What the stock flag becomes is
  not part of this statement.
\<close>

theorem put_inStock_optional:
  assumes "req_method req = PUT" "length (req_path req) = 3"
    and "take 2 (map ascii_toLowerCase (req_path req)) = [''api'', ''products'']"
    and "x_api_key req = Some ''your-secret-api-key''"
    and "body req ''inStock'' = None"
    and "body req ''name'' = Some (JStr n)" "n \<noteq> []" "trim js n \<noteq> []"
    and "body req ''description'' = Some (JStr d)" "d \<noteq> []" "trim js d \<noteq> []"
    and "body req ''price'' = Some (JNum r)" "num_less (Fin 0) r"
    and "body req ''category'' = Some (JStr c)" "c \<noteq> []" "trim js c \<noteq> []"
    and "findIndex (\<lambda>p. pid p = req_path req ! 2) ps = Some k"
  shows "validateProduct js (body req) = None \<and>
     (\<exists>s. route js ps uuid req =
        (ps[k := (ps ! k)\<lparr>name := trim js n, description := trim js d, price := r,
                           category := toLowerCase js (trim js c), inStock := s\<rparr>],
         \<lparr>status = 200,
          json = MessageBody ''Product updated successfully''
                   ((ps ! k)\<lparr>name := trim js n, description := trim js d, price := r,
                              category := toLowerCase js (trim js c), inStock := s\<rparr>)\<rparr>))"
proof -
  have e: "validation_errors js (body req) = []"
    unfolding validation_errors_Nil
    using assms(5-16) positive_not_le[OF assms(13)] by blast
  then have v: "validateProduct js (body req) = None"
    by (simp only: validateProduct_None)
  from route_PUT_valid[OF assms(1-4) e assms(17), of uuid]
  have "route js ps uuid req =
       (ps[k := (ps ! k)\<lparr>name := trim js n, description := trim js d, price := r,
                          category := toLowerCase js (trim js c),
                          inStock := (body req ''inStock'' = Some (JBool True))\<rparr>],
        \<lparr>status = 200,
         json = MessageBody ''Product updated successfully''
                  ((ps ! k)\<lparr>name := trim js n, description := trim js d, price := r,
                             category := toLowerCase js (trim js c),
                             inStock := (body req ''inStock'' = Some (JBool True))\<rparr>)\<rparr>)"
    unfolding assms(6,9,12,14) by simp
  then show ?thesis using v by blast
qed

theorem put_inStock_optional_witness:
  "validateProduct ascii_js body_without_inStock = None \<and>
   (\<exists>s. route ascii_js products []
           (keyed_request PUT [''api'', ''products'', ''1''] body_without_inStock) =
        (products[0 := (products ! 0)\<lparr>name := ''Desk'', description := ''Oak desk'',
                          price := Fin 250, category := ''furniture'', inStock := s\<rparr>],
         \<lparr>status = 200,
          json = MessageBody ''Product updated successfully''
                   ((products ! 0)\<lparr>name := ''Desk'', description := ''Oak desk'',
                          price := Fin 250, category := ''furniture'', inStock := s\<rparr>)\<rparr>))"
proof -
  define req where "req = keyed_request PUT [''api'', ''products'', ''1''] body_without_inStock"
  have h: "req_method req = PUT" "length (req_path req) = 3"
    "take 2 (map ascii_toLowerCase (req_path req)) = [''api'', ''products'']"
    "x_api_key req = Some ''your-secret-api-key''"
    "body req ''inStock'' = None"
    by (simp_all add: req_def keyed_request_simps lower_api body_without_inStock_simps)
  have f: "body req ''name'' = Some (JStr ''Desk'')" "''Desk'' \<noteq> []"
    "trim ascii_js ''Desk'' \<noteq> []"
    "body req ''description'' = Some (JStr ''Oak desk'')" "''Oak desk'' \<noteq> []"
    "trim ascii_js ''Oak desk'' \<noteq> []"
    "body req ''price'' = Some (JNum (Fin 250))" "num_less (Fin 0) (Fin 250)"
    "body req ''category'' = Some (JStr ''Furniture'')" "''Furniture'' \<noteq> []"
    "trim ascii_js ''Furniture'' \<noteq> []"
    by (simp_all add: req_def keyed_request_simps body_without_inStock_simps trims
          ascii_js_simps)
  have k: "findIndex (\<lambda>p. pid p = req_path req ! 2) products = Some 0"
    by (simp add: req_def keyed_request_simps findIndex_products)
  have b: "body req = body_without_inStock"
    by (simp add: req_def keyed_request_simps)
  from put_inStock_optional[OF h f k, of "[]"] show ?thesis
    unfolding b ascii_js_simps trims lowers unfolding req_def .
qed

text \<open>
  The claim as first stated has such an update rejected with status 400 and never stored.
  On the initial store, the update of product \<open>''1''\<close> with a body that has no
  \<^verbatim>\<open>inStock\<close> passes validation, is answered with 200 and changes the store.
\<close>

theorem put_inStock_required_counterexample:
  "body_without_inStock ''inStock'' = None \<and>
   validateProduct ascii_js body_without_inStock = None \<and>
   route ascii_js products [] (keyed_request PUT [''api'', ''products'', ''1''] body_without_inStock) =
     (products[0 := \<lparr>pid = ''1'', name = ''Desk'', description = ''Oak desk'', price = Fin 250,
                     category = ''furniture'', inStock = False\<rparr>],
      \<lparr>status = 200,
       json = MessageBody ''Product updated successfully''
                \<lparr>pid = ''1'', name = ''Desk'', description = ''Oak desk'', price = Fin 250,
                 category = ''furniture'', inStock = False\<rparr>\<rparr>) \<and>
   products[0 := \<lparr>pid = ''1'', name = ''Desk'', description = ''Oak desk'', price = Fin 250,
                   category = ''furniture'', inStock = False\<rparr>] \<noteq> products"
proof -
  have v: "validateProduct ascii_js body_without_inStock = None"
    by (simp add: validateProduct_None validation_errors_Nil body_without_inStock_simps trims
          ascii_js_simps num_le_def)
  have "route ascii_js products [] (keyed_request PUT [''api'', ''products'', ''1''] body_without_inStock) =
      finish products (put_product ascii_js products ''1'' body_without_inStock)"
    by (simp add: route_PUT keyed_request_simps lower_api authMiddleware_accepts v)
  also have "\<dots> =
     (products[0 := \<lparr>pid = ''1'', name = ''Desk'', description = ''Oak desk'', price = Fin 250,
                     category = ''furniture'', inStock = False\<rparr>],
      \<lparr>status = 200,
       json = MessageBody ''Product updated successfully''
                \<lparr>pid = ''1'', name = ''Desk'', description = ''Oak desk'', price = Fin 250,
                 category = ''furniture'', inStock = False\<rparr>\<rparr>)"
    by (simp add: put_product_def findIndex_products Let_def body_without_inStock_simps
          finish_def trims lowers ascii_js_simps)
       (simp add: products_def)
  finally have r: "route ascii_js products []
       (keyed_request PUT [''api'', ''products'', ''1''] body_without_inStock) =
     (products[0 := \<lparr>pid = ''1'', name = ''Desk'', description = ''Oak desk'', price = Fin 250,
                     category = ''furniture'', inStock = False\<rparr>],
      \<lparr>status = 200,
       json = MessageBody ''Product updated successfully''
                \<lparr>pid = ''1'', name = ''Desk'', description = ''Oak desk'', price = Fin 250,
                 category = ''furniture'', inStock = False\<rparr>\<rparr>)" .
  have n: "products[0 := \<lparr>pid = ''1'', name = ''Desk'', description = ''Oak desk'', price = Fin 250,
                   category = ''furniture'', inStock = False\<rparr>] \<noteq> products"
    by (simp add: products_def)
  from v r n show ?thesis
    by (simp add: body_without_inStock_simps)
qed


subsection \<open>Statistics\<close>

lemma chain_cases:
  "chain ps ms h = finish ps h \<or> fst (chain ps ms h) = ps"
  by (induction ps ms h rule: chain.induct) auto

lemma finish_get_product: "fst (finish ps (get_product ps i)) = ps"
  by (simp add: finish_def get_product_def split: option.splits)

lemma finish_delete_product:
  "fst (finish ps (delete_product ps i)) = ps \<or>
   (\<exists>k. fst (finish ps (delete_product ps i)) = take k ps @ drop (Suc k) ps)"
  by (auto simp: finish_def delete_product_def Let_def split: option.splits)

lemma route_store_cases:
  "fst (route js ps uuid req) = ps \<or>
   (\<exists>k. fst (route js ps uuid req) = take k ps @ drop (Suc k) ps) \<or>
   (validation_errors js (body req) = [] \<and>
      (route js ps uuid req = finish ps (post_product js ps uuid (body req)) \<or>
       (\<exists>i. route js ps uuid req = finish ps (put_product js ps i (body req)))))"
proof (cases "req_method req")
  case GET
  then show ?thesis
    by (simp add: route_def Let_def finish_get_product fst_respond)
next
  case POST
  show ?thesis
  proof (cases "map ascii_toLowerCase (req_path req) = [''api'', ''products'']")
    case True
    note r = route_POST[OF POST True, of js ps uuid]
    show ?thesis
    proof (cases "authMiddleware (x_api_key req)")
      case None
      show ?thesis
      proof (cases "validateProduct js (body req)")
        case None
        with \<open>authMiddleware (x_api_key req) = None\<close> r validateProduct_None[of js "body req"]
        show ?thesis by simp
      next
        case (Some a)
        with \<open>authMiddleware (x_api_key req) = None\<close> r show ?thesis by simp
      qed
    next
      case (Some a)
      with r show ?thesis by simp
    qed
  next
    case False
    with POST show ?thesis by (simp add: route_def Let_def)
  qed
next
  case PUT
  show ?thesis
  proof (cases "length (req_path req) = 3 \<and>
      take 2 (map ascii_toLowerCase (req_path req)) = [''api'', ''products'']")
    case True
    then have r: "route js ps uuid req =
     chain ps [authMiddleware (x_api_key req), validateProduct js (body req)]
       (put_product js ps (req_path req ! 2) (body req))"
      using route_PUT[OF PUT] by blast
    show ?thesis
    proof (cases "authMiddleware (x_api_key req)")
      case None
      show ?thesis
      proof (cases "validateProduct js (body req)")
        case None
        with \<open>authMiddleware (x_api_key req) = None\<close> r validateProduct_None[of js "body req"]
        show ?thesis by auto
      next
        case (Some a)
        with \<open>authMiddleware (x_api_key req) = None\<close> r show ?thesis by simp
      qed
    next
      case (Some a)
      with r show ?thesis by simp
    qed
  next
    case False
    with PUT show ?thesis by (auto simp: route_def Let_def)
  qed
next
  case DELETE
  show ?thesis
  proof (cases "length (req_path req) = 3 \<and>
      take 2 (map ascii_toLowerCase (req_path req)) = [''api'', ''products'']")
    case True
    then have r: "route js ps uuid req =
       chain ps [authMiddleware (x_api_key req)] (delete_product ps (req_path req ! 2))"
      using route_DELETE[OF DELETE] by blast
    show ?thesis
    proof (cases "authMiddleware (x_api_key req)")
      case None
      with r finish_delete_product[of ps "req_path req ! 2"] show ?thesis by auto
    next
      case (Some a)
      with r show ?thesis by simp
    qed
  next
    case False
    with DELETE show ?thesis by (auto simp: route_def Let_def)
  qed
qed

lemma positive_cases:
  "num_less (Fin 0) r \<longleftrightarrow> r = PosInf \<or> (\<exists>a. r = Fin a \<and> 0 < a)"
  by (cases r) simp_all

lemma valid_price_positive: "\<not> num_le r (Fin 0) \<Longrightarrow> r \<noteq> NaN \<Longrightarrow> num_less (Fin 0) r"
  by (cases r) (simp_all add: num_le_def)

lemma route_keeps_prices_positive:
  assumes "\<forall>p\<in>set ps. num_less (Fin 0) (price p)"
    and "body req ''price'' \<noteq> Some (JNum NaN)"
  shows "\<forall>p\<in>set (fst (route js ps uuid req)). num_less (Fin 0) (price p)"
proof -
  from route_store_cases[of js ps uuid req] consider
      (same) "fst (route js ps uuid req) = ps"
    | (del) k where "fst (route js ps uuid req) = take k ps @ drop (Suc k) ps"
    | (post) "validation_errors js (body req) = []"
        "route js ps uuid req = finish ps (post_product js ps uuid (body req))"
    | (put) i where "validation_errors js (body req) = []"
        "route js ps uuid req = finish ps (put_product js ps i (body req))"
    by blast
  then show ?thesis
  proof cases
    case same
    with assms show ?thesis by simp
  next
    case del
    have "set (take k ps @ drop (Suc k) ps) \<subseteq> set ps"
      using set_take_subset[of k ps] set_drop_subset[of "Suc k" ps] by auto
    with assms del show ?thesis by auto
  next
    case post
    from post(1) obtain n d r c where s: "body req ''name'' = Some (JStr n)"
      "body req ''description'' = Some (JStr d)" "body req ''price'' = Some (JNum r)"
      "body req ''category'' = Some (JStr c)" and r: "\<not> num_le r (Fin 0)"
      and t: "body req ''inStock'' = None \<or> (\<exists>v. body req ''inStock'' = Some (JBool v))"
      unfolding validation_errors_Nil by blast
    have "num_less (Fin 0) r"
      using r s(3) assms(2) by (intro valid_price_positive) auto
    then show ?thesis
      unfolding post(2) post_product_valid[OF s t refl] finish_def
      using assms(1) by simp
  next
    case put
    from put(1) obtain n d r c where s: "body req ''name'' = Some (JStr n)"
      "body req ''description'' = Some (JStr d)" "body req ''price'' = Some (JNum r)"
      "body req ''category'' = Some (JStr c)" and r: "\<not> num_le r (Fin 0)"
      and t: "body req ''inStock'' = None \<or> (\<exists>v. body req ''inStock'' = Some (JBool v))"
      unfolding validation_errors_Nil by blast
    have pos: "num_less (Fin 0) r"
      using r s(3) assms(2) by (intro valid_price_positive) auto
    show ?thesis
    proof (cases "findIndex (\<lambda>p. pid p = i) ps")
      case None
      then show ?thesis
        unfolding put(2) using assms(1) by (simp add: put_product_def finish_def)
    next
      case (Some k)
      define U where "U = (ps ! k)\<lparr>name := trim js n, description := trim js d, price := r,
                       category := toLowerCase js (trim js c),
                       inStock := (body req ''inStock'' = Some (JBool True))\<rparr>"
      have "num_less (Fin 0) (price U)" using pos by (simp add: U_def)
      then have "\<forall>p\<in>set (ps[k := U]). num_less (Fin 0) (price p)"
        using assms(1) set_update_subset_insert[of ps k U] by auto
      then show ?thesis
        unfolding put(2) put_product_valid[OF Some s t U_def] finish_def
        by simp
    qed
  qed
qed

lemma fst_app: "fst (app js ps uuid parsed req) = ps \<or>
   app js ps uuid parsed req = route js ps uuid req"
  by (auto simp: app_def split: option.splits)

lemma reachable_prices_positive:
  "reachable js ps \<Longrightarrow> \<forall>p\<in>set ps. num_less (Fin 0) (price p)"
proof (induction rule: reachable.induct)
  case initial
  show ?case by (simp add: products_def)
next
  case (request ps req uuid parsed)
  from fst_app[of js ps uuid parsed req] show ?case
  proof
    assume "fst (app js ps uuid parsed req) = ps"
    with request.IH show ?thesis by simp
  next
    assume "app js ps uuid parsed req = route js ps uuid req"
    with route_keeps_prices_positive[OF request.IH request.hyps(2), of js uuid]
    show ?thesis by simp
  qed
qed

lemma route_GET_stats:
  "req_method req = GET \<Longrightarrow> map ascii_toLowerCase (req_path req) = [''api'', ''stats''] \<Longrightarrow>
   route js ps uuid req = (ps, get_stats js ps)"
  by (auto simp: route_def Let_def)

lemma num_less_trans: "num_less a b \<Longrightarrow> num_less b c \<Longrightarrow> num_less a c"
  by (cases a; cases b; cases c) simp_all

lemma num_le_trans: "num_le a b \<Longrightarrow> num_le b c \<Longrightarrow> num_le a c"
  unfolding num_le_def by (blast intro: num_less_trans)

lemma num_le_refl: "x \<noteq> NaN \<Longrightarrow> num_le x x"
  by (simp add: num_le_def)

lemma not_less_le: "\<not> num_less a b \<Longrightarrow> a \<noteq> NaN \<Longrightarrow> b \<noteq> NaN \<Longrightarrow> num_le b a"
  by (cases a; cases b) (auto simp: num_le_def)

lemma less_le: "num_less a b \<Longrightarrow> num_le a b"
  by (cases a; cases b) (auto simp: num_le_def)

lemma positive_not_NaN: "num_less (Fin 0) x \<Longrightarrow> x \<noteq> NaN \<and> x \<noteq> Fin 0"
  by (cases x) auto

lemma stats_step_total: "total (stats_step js acc p) = total acc"
  by (simp add: stats_step_def Let_def)

lemma stats_step_totalValue:
  "totalValue (stats_step js acc p) = num_add (to_double js) (totalValue acc) (price p)"
  by (simp add: stats_step_def Let_def)

lemma stats_step_min:
  "priceRange_min (stats_step js acc p) =
     (case priceRange_min acc of
        None \<Rightarrow> Some (price p)
      | Some m \<Rightarrow> if m = Fin 0 \<or> m = NaN \<or> num_less (price p) m
                  then Some (price p) else Some m)"
  by (simp add: stats_step_def Let_def not_num_def split: option.splits)

lemma stats_step_max:
  "priceRange_max (stats_step js acc p) =
     (case priceRange_max acc of
        None \<Rightarrow> Some (price p)
      | Some m \<Rightarrow> if m = Fin 0 \<or> m = NaN \<or> num_less m (price p)
                  then Some (price p) else Some m)"
  by (simp add: stats_step_def Let_def not_num_def split: option.splits)

lemma foldl_stats_total: "total (foldl (stats_step js) acc ps) = total acc"
  by (induction ps arbitrary: acc) (simp_all add: stats_step_total)

lemma foldl_stats_totalValue:
  "totalValue (foldl (stats_step js) acc ps) =
     foldl (num_add (to_double js)) (totalValue acc) (map price ps)"
  by (induction ps arbitrary: acc) (simp_all add: stats_step_totalValue)

lemma foldl_stats_min:
  assumes "\<forall>p\<in>set ps. num_less (Fin 0) (price p)"
    and "priceRange_min acc = Some m" "num_less (Fin 0) m"
  shows "\<exists>lo. priceRange_min (foldl (stats_step js) acc ps) = Some lo \<and>
           lo \<in> insert m (price ` set ps) \<and> num_le lo m \<and>
           (\<forall>p\<in>set ps. num_le lo (price p))"
  using assms
proof (induction ps arbitrary: acc m)
  case Nil
  then show ?case by (simp add: num_le_refl positive_not_NaN)
next
  case (Cons p ps)
  define m' where "m' = (if num_less (price p) m then price p else m)"
  have pp: "num_less (Fin 0) (price p)" using Cons.prems(1) by simp
  have s: "priceRange_min (stats_step js acc p) = Some m'"
    using Cons.prems(2) positive_not_NaN[OF Cons.prems(3)]
    by (simp add: stats_step_min m'_def)
  have pos: "num_less (Fin 0) m'"
    using pp Cons.prems(3) by (simp add: m'_def)
  have le: "num_le m' m" "num_le m' (price p)"
    using positive_not_NaN[OF pp] positive_not_NaN[OF Cons.prems(3)]
    by (auto simp: m'_def less_le num_le_refl not_less_le)
  have mem: "m' = m \<or> m' = price p" by (simp add: m'_def)
  from Cons.IH[OF _ s pos] Cons.prems(1) obtain lo where
    lo: "priceRange_min (foldl (stats_step js) (stats_step js acc p) ps) = Some lo"
      "lo \<in> insert m' (price ` set ps)" "num_le lo m'" "\<forall>q\<in>set ps. num_le lo (price q)"
    by auto
  have "num_le lo m" "num_le lo (price p)"
    using lo(3) le by (blast intro: num_le_trans)+
  with lo mem show ?case by auto
qed

lemma foldl_stats_max:
  assumes "\<forall>p\<in>set ps. num_less (Fin 0) (price p)"
    and "priceRange_max acc = Some m" "num_less (Fin 0) m"
  shows "\<exists>hi. priceRange_max (foldl (stats_step js) acc ps) = Some hi \<and>
           hi \<in> insert m (price ` set ps) \<and> num_le m hi \<and>
           (\<forall>p\<in>set ps. num_le (price p) hi)"
  using assms
proof (induction ps arbitrary: acc m)
  case Nil
  then show ?case by (simp add: num_le_refl positive_not_NaN)
next
  case (Cons p ps)
  define m' where "m' = (if num_less m (price p) then price p else m)"
  have pp: "num_less (Fin 0) (price p)" using Cons.prems(1) by simp
  have s: "priceRange_max (stats_step js acc p) = Some m'"
    using Cons.prems(2) positive_not_NaN[OF Cons.prems(3)]
    by (simp add: stats_step_max m'_def)
  have pos: "num_less (Fin 0) m'"
    using pp Cons.prems(3) by (simp add: m'_def)
  have le: "num_le m m'" "num_le (price p) m'"
    using positive_not_NaN[OF pp] positive_not_NaN[OF Cons.prems(3)]
    by (auto simp: m'_def less_le num_le_refl not_less_le)
  have mem: "m' = m \<or> m' = price p" by (simp add: m'_def)
  from Cons.IH[OF _ s pos] Cons.prems(1) obtain hi where
    hi: "priceRange_max (foldl (stats_step js) (stats_step js acc p) ps) = Some hi"
      "hi \<in> insert m' (price ` set ps)" "num_le m' hi" "\<forall>q\<in>set ps. num_le (price q) hi"
    by auto
  have "num_le m hi" "num_le (price p) hi"
    using hi(3) le by (blast intro: num_le_trans)+
  with hi mem show ?case by auto
qed

lemma foldl_stats_range:
  assumes "\<forall>p\<in>set ps. num_less (Fin 0) (price p)"
    and "priceRange_min acc = None" "priceRange_max acc = None" "ps \<noteq> []"
  shows "\<exists>lo hi. priceRange_min (foldl (stats_step js) acc ps) = Some lo \<and>
           priceRange_max (foldl (stats_step js) acc ps) = Some hi \<and>
           lo \<in> price ` set ps \<and> hi \<in> price ` set ps \<and>
           (\<forall>p\<in>set ps. num_le lo (price p) \<and> num_le (price p) hi)"
proof -
  from assms(4) obtain p qs where ps: "ps = p # qs" by (cases ps) auto
  have pp: "num_less (Fin 0) (price p)" and rest: "\<forall>q\<in>set qs. num_less (Fin 0) (price q)"
    using assms(1) ps by simp_all
  have a: "priceRange_min (stats_step js acc p) = Some (price p)"
    using assms(2) by (simp add: stats_step_min)
  have b: "priceRange_max (stats_step js acc p) = Some (price p)"
    using assms(3) by (simp add: stats_step_max)
  from foldl_stats_min[OF rest a pp] obtain lo where
    lo: "priceRange_min (foldl (stats_step js) (stats_step js acc p) qs) = Some lo"
      "lo \<in> insert (price p) (price ` set qs)" "num_le lo (price p)"
      "\<forall>q\<in>set qs. num_le lo (price q)"
    by blast
  from foldl_stats_max[OF rest b pp] obtain hi where
    hi: "priceRange_max (foldl (stats_step js) (stats_step js acc p) qs) = Some hi"
      "hi \<in> insert (price p) (price ` set qs)" "num_le (price p) hi"
      "\<forall>q\<in>set qs. num_le (price q) hi"
    by blast
  from lo hi show ?thesis unfolding ps by auto
qed

lemma foldl_add_exact:
  assumes "\<forall>k\<le>length xs. rd (a + sum_list (take k xs)) = Fin (a + sum_list (take k xs))"
  shows "foldl (num_add rd) (Fin a) (map Fin xs) = Fin (a + sum_list xs)"
  using assms
proof (induction xs arbitrary: a)
  case Nil
  show ?case by simp
next
  case (Cons x xs)
  from Cons.prems[THEN spec, of 1] have s: "rd (a + x) = Fin (a + x)" by simp
  have "\<forall>k\<le>length xs. rd (a + x + sum_list (take k xs)) = Fin (a + x + sum_list (take k xs))"
  proof (intro allI impI)
    fix k assume "k \<le> length xs"
    with Cons.prems[THEN spec, of "Suc k"] show
      "rd (a + x + sum_list (take k xs)) = Fin (a + x + sum_list (take k xs))"
      by (simp add: add.assoc)
  qed
  from Cons.IH[OF this] show ?case by (simp add: s add.assoc)
qed

lemma totalValue_exact:
  assumes "map price ps = map Fin xs"
    and "\<forall>k\<le>length xs. to_double js (sum_list (take k xs)) = Fin (sum_list (take k xs))"
  shows "totalValue (computeStats js ps) = Fin (sum_list xs)"
proof -
  have "totalValue (computeStats js ps) = foldl (num_add (to_double js)) (Fin 0) (map price ps)"
    by (simp add: computeStats_def Let_def foldl_stats_totalValue)
  also have "\<dots> = Fin (0 + sum_list xs)"
    unfolding assms(1) using assms(2) by (intro foldl_add_exact) simp
  finally show ?thesis by simp
qed

lemma infinite_price_stats:
  "totalValue (computeStats js [\<lparr>pid = i, name = n, description = d, price = PosInf,
                                 category = c, inStock = s\<rparr>]) = PosInf \<and>
   averagePrice (computeStats js [\<lparr>pid = i, name = n, description = d, price = PosInf,
                                   category = c, inStock = s\<rparr>]) = PosInf"
  by (simp add: computeStats_def stats_step_def Let_def)

text \<open>
  Claim C4 (statistics). For a collection of products, each with a price above zero as the
  data model has it and as every store the server can hold has it
  (\<open>reachable_prices_positive\<close>), the statistics pass returns \<open>total\<close> the number of
  records; \<open>totalValue\<close> the sum of the prices as the language takes it, from 0 and adding
  each price in store order in binary64 arithmetic; \<open>averagePrice\<close> that total divided by
  \<open>total\<close>, again in binary64 arithmetic; and as price range a least and a greatest price
  of the collection. Where no addition rounds, \<open>totalValue\<close> is the exact sum
  (\<open>totalValue_exact\<close>). On the empty collection both bounds are \<^verbatim>\<open>null\<close> and
  \<open>averagePrice\<close> is the number 0, where the quotient of \<open>totalValue\<close> by \<open>total\<close>,
  which the code does not take, is \<^verbatim>\<open>NaN\<close>. \<^verbatim>\<open>GET /api/stats\<close> answers 200 with
  these statistics (\<open>route_GET_stats\<close>).
\<close>

theorem computeStats_correct:
  assumes "\<forall>p\<in>set ps. num_less (Fin 0) (price p)"
  shows "total (computeStats js ps) = length ps \<and>
     totalValue (computeStats js ps) = foldl (num_add (to_double js)) (Fin 0) (map price ps) \<and>
     (ps \<noteq> [] \<longrightarrow>
        averagePrice (computeStats js ps) =
          num_div (to_double js) (totalValue (computeStats js ps)) (length ps) \<and>
        (\<exists>lo hi. priceRange_min (computeStats js ps) = Some lo \<and>
           priceRange_max (computeStats js ps) = Some hi \<and>
           lo \<in> price ` set ps \<and> hi \<in> price ` set ps \<and>
           (\<forall>p\<in>set ps. num_le lo (price p) \<and> num_le (price p) hi))) \<and>
     (ps = [] \<longrightarrow>
        averagePrice (computeStats js ps) = Fin 0 \<and>
        num_div (to_double js) (totalValue (computeStats js ps)) (total (computeStats js ps)) =
          NaN \<and>
        priceRange_min (computeStats js ps) = None \<and>
        priceRange_max (computeStats js ps) = None) \<and>
     get_stats js ps = \<lparr>status = 200, json = StatsBody (computeStats js ps)\<rparr>"
proof -
  define init where "init = \<lparr>total = length ps, byCategory = [], inStockCount = 0,
      outOfStock = 0, totalValue = Fin 0, priceRange_min = None, priceRange_max = None,
      averagePrice = Fin 0\<rparr>"
  define st where "st = foldl (stats_step js) init ps"
  have c: "computeStats js ps =
      st\<lparr>averagePrice :=
           (if total st > 0 then num_div (to_double js) (totalValue st) (total st)
            else Fin 0)\<rparr>"
    by (simp add: computeStats_def Let_def st_def init_def)
  have t: "total st = length ps"
    by (simp add: st_def foldl_stats_total init_def)
  have v: "totalValue st = foldl (num_add (to_double js)) (Fin 0) (map price ps)"
    by (simp add: st_def foldl_stats_totalValue init_def)
  have r: "\<exists>lo hi. priceRange_min st = Some lo \<and> priceRange_max st = Some hi \<and>
           lo \<in> price ` set ps \<and> hi \<in> price ` set ps \<and>
           (\<forall>p\<in>set ps. num_le lo (price p) \<and> num_le (price p) hi)" if "ps \<noteq> []"
    unfolding st_def by (rule foldl_stats_range[OF assms _ _ that]) (simp_all add: init_def)
  have e: "priceRange_min st = None" "priceRange_max st = None" "totalValue st = Fin 0"
    if "ps = []"
    using that by (simp_all add: st_def init_def)
  show ?thesis
  proof (cases "ps = []")
    case True
    show ?thesis
      unfolding get_stats_def c using True e t by simp
  next
    case False
    show ?thesis
      unfolding get_stats_def c using False r t v by simp
  qed
qed

theorem computeStats_correct_witness:
  "total (computeStats ascii_js products) = 5 \<and>
   totalValue (computeStats ascii_js products) = Fin 2500 \<and>
   averagePrice (computeStats ascii_js products) = Fin 500 \<and>
   priceRange_min (computeStats ascii_js products) = Some (Fin 50) \<and>
   priceRange_max (computeStats ascii_js products) = Some (Fin 1200) \<and>
   total (computeStats ascii_js []) = 0 \<and> averagePrice (computeStats ascii_js []) = Fin 0 \<and>
   priceRange_min (computeStats ascii_js []) = None \<and>
   priceRange_max (computeStats ascii_js []) = None"
proof -
  have p: "\<forall>p\<in>set products. num_less (Fin 0) (price p)" by (simp add: products_def)
  have e: "\<forall>p\<in>set ([] :: product list). num_less (Fin 0) (price p)" by simp
  have l: "length products = 5"
    "map price products = [Fin 1200, Fin 800, Fin 50, Fin 300, Fin 150]"
    and ne: "products \<noteq> []"
    by (simp_all add: products_def)
  have s: "price ` set products = {Fin 1200, Fin 800, Fin 50, Fin 300, Fin 150}"
    by (simp add: products_def)
  note w = computeStats_correct[OF p, of ascii_js]
  note w0 = computeStats_correct[OF e, of ascii_js]
  have t: "total (computeStats ascii_js products) = 5"
    using w[THEN conjunct1] by (simp only: l)
  have v: "totalValue (computeStats ascii_js products) = Fin 2500"
    using w[THEN conjunct2, THEN conjunct1] by (simp add: l ascii_js_simps)
  note w3 = w[THEN conjunct2, THEN conjunct2, THEN conjunct1, THEN mp, OF ne]
  have a: "averagePrice (computeStats ascii_js products) = Fin 500"
    using w3[THEN conjunct1] by (simp add: v l ascii_js_simps)
  from w3[THEN conjunct2] obtain lo hi where
    r: "priceRange_min (computeStats ascii_js products) = Some lo"
       "priceRange_max (computeStats ascii_js products) = Some hi"
       "lo \<in> price ` set products" "hi \<in> price ` set products"
       "\<forall>x\<in>set products. num_le lo (price x) \<and> num_le (price x) hi"
    by blast
  have "num_le lo (Fin 50)" "num_le (Fin 1200) hi"
    using r(5) by (simp_all add: products_def)
  moreover have "lo \<in> {Fin 1200, Fin 800, Fin 50, Fin 300, Fin 150}"
    "hi \<in> {Fin 1200, Fin 800, Fin 50, Fin 300, Fin 150}"
    using r(3,4) unfolding s by simp_all
  ultimately have "lo = Fin 50" "hi = Fin 1200"
    by (auto simp: num_le_def)
  with r(1,2) have m: "priceRange_min (computeStats ascii_js products) = Some (Fin 50)"
    "priceRange_max (computeStats ascii_js products) = Some (Fin 1200)"
    by simp_all
  have z: "total (computeStats ascii_js []) = 0" "averagePrice (computeStats ascii_js []) = Fin 0"
    "priceRange_min (computeStats ascii_js []) = None"
    "priceRange_max (computeStats ascii_js []) = None"
    using w0 by simp_all
  from t v a m z show ?thesis by simp
qed

end
